theory Spec2Isabelle
  imports Main "HOL-Library.Word" "HOL-Library.Multiset"
begin

section \<open>Bytes, white space and lines\<close>

text \<open>
  A Go \<^verbatim>\<open>string\<close> and a \<^verbatim>\<open>[]byte\<close> are byte sequences: both are \<open>string\<close> here (a list
  of 8-bit characters). \<^verbatim>\<open>strings.TrimSpace\<close> and the scanner of \<^verbatim>\<open>fmt.Sscanf\<close> work
  on runes: the white space they know is the Unicode property White\_Space, listed here by
  the UTF-8 encoding of each rune (U+0009..U+000D, U+0020, U+0085, U+00A0, U+1680,
  U+2000..U+200A, U+2028, U+2029, U+202F, U+205F, U+3000). No encoding in the list is a
  prefix or a suffix of another, and none starts with a continuation byte, so a space
  rune starts where one of these encodings does.
\<close>

definition space_encodings :: "string list" where
  "space_encodings =
     [[CHR 0x09], [CHR 0x0A], [CHR 0x0B], [CHR 0x0C], [CHR 0x0D], [CHR 0x20],
      [CHR 0xC2, CHR 0x85], [CHR 0xC2, CHR 0xA0],
      [CHR 0xE1, CHR 0x9A, CHR 0x80],
      [CHR 0xE2, CHR 0x80, CHR 0x80], [CHR 0xE2, CHR 0x80, CHR 0x81],
      [CHR 0xE2, CHR 0x80, CHR 0x82], [CHR 0xE2, CHR 0x80, CHR 0x83],
      [CHR 0xE2, CHR 0x80, CHR 0x84], [CHR 0xE2, CHR 0x80, CHR 0x85],
      [CHR 0xE2, CHR 0x80, CHR 0x86], [CHR 0xE2, CHR 0x80, CHR 0x87],
      [CHR 0xE2, CHR 0x80, CHR 0x88], [CHR 0xE2, CHR 0x80, CHR 0x89],
      [CHR 0xE2, CHR 0x80, CHR 0x8A],
      [CHR 0xE2, CHR 0x80, CHR 0xA8], [CHR 0xE2, CHR 0x80, CHR 0xA9],
      [CHR 0xE2, CHR 0x80, CHR 0xAF],
      [CHR 0xE2, CHR 0x81, CHR 0x9F],
      [CHR 0xE3, CHR 0x80, CHR 0x80]]"

definition HasPrefix :: "string \<Rightarrow> string \<Rightarrow> bool" where
  "HasPrefix s p = (take (length p) s = p)"

definition HasSuffix :: "string \<Rightarrow> string \<Rightarrow> bool" where
  "HasSuffix s p = (length p \<le> length s \<and> drop (length s - length p) s = p)"

text \<open>The width in bytes of the space rune a string starts (ends) with; 0 when it does not.\<close>

definition space_width :: "string \<Rightarrow> nat" where
  "space_width s = (case find (HasPrefix s) space_encodings of None \<Rightarrow> 0 | Some e \<Rightarrow> length e)"

definition space_width_end :: "string \<Rightarrow> nat" where
  "space_width_end s = (case find (HasSuffix s) space_encodings of None \<Rightarrow> 0 | Some e \<Rightarrow> length e)"

function trim_left :: "string \<Rightarrow> string" where
  "trim_left s = (if space_width s = 0 \<or> s = [] then s else trim_left (drop (space_width s) s))"
  by pat_completeness auto
termination
  by (relation "measure length") auto

declare trim_left.simps [simp del]

function trim_right :: "string \<Rightarrow> string" where
  "trim_right s =
     (if space_width_end s = 0 \<or> s = [] then s
      else trim_right (take (length s - space_width_end s) s))"
  by pat_completeness auto
termination
  by (relation "measure length") auto

declare trim_right.simps [simp del]

definition TrimSpace :: "string \<Rightarrow> string" where
  "TrimSpace s = trim_right (trim_left s)"

text \<open>\<^verbatim>\<open>strings.Split(s, "\n")\<close>: the pieces between the newlines, at least one piece.\<close>

definition newline :: char where
  "newline = CHR 0x0A"

fun Split_lines :: "string \<Rightarrow> string list" where
  "Split_lines [] = [[]]"
| "Split_lines (c # cs) =
     (if c = newline then [] # Split_lines cs
      else (case Split_lines cs of l # ls \<Rightarrow> (c # l) # ls | [] \<Rightarrow> [[c]]))"

section \<open>Standard input: readLine\<close>

text \<open>
  Standard input is the bytes still to be read and how the stream ends once they are
  used up: at end of file, or with another read error when \<open>broken\<close>.
  \<^verbatim>\<open>ReadBytes('\n')\<close> returns the bytes up to and with the next newline; without a
  newline it uses up the rest and returns the error. \<^verbatim>\<open>readLine\<close> drops the newline
  and skips the lines that \<^verbatim>\<open>TrimSpace\<close> empties.
\<close>

record stdin =
  pending :: string
  broken :: bool

datatype io_error = io_EOF | io_failure

definition ReadBytes :: "stdin \<Rightarrow> string option \<times> stdin" where
  "ReadBytes r =
     (if newline \<in> set (pending r)
      then (Some (takeWhile (\<lambda>c. c \<noteq> newline) (pending r) @ [newline]),
            r\<lparr>pending := tl (dropWhile (\<lambda>c. c \<noteq> newline) (pending r))\<rparr>)
      else (None, r\<lparr>pending := []\<rparr>))"

function readLine :: "stdin \<Rightarrow> (io_error + string) \<times> stdin" where
  "readLine r =
     (case ReadBytes r of
        (None, r') \<Rightarrow> (Inl (if broken r then io_failure else io_EOF), r')
      | (Some line, r') \<Rightarrow>
          if length (TrimSpace (butlast line)) > 0 then (Inr (butlast line), r')
          else readLine r')"
  by pat_completeness auto
termination
  apply (relation "measure (\<lambda>r. length (pending r))")
   apply simp
  subgoal for r x1 x2 line
    using length_dropWhile_le[of "\<lambda>c. c \<noteq> newline" "pending r"]
    by (cases "dropWhile (\<lambda>c. c \<noteq> newline) (pending r)")
       (auto simp: ReadBytes_def split: if_splits)
  done

declare readLine.simps [simp del]

section \<open>Base64 and hexadecimal (encoding/base64, encoding/hex)\<close>

text \<open>
  \<^verbatim>\<open>base64.StdEncoding\<close>: the alphabet A-Z a-z 0-9 + /, padded with =. The decoder
  ignores carriage returns and newlines wherever they stand, wants whole groups of four
  characters, the last one padded as \<^verbatim>\<open>xx==\<close> or \<^verbatim>\<open>xxx=\<close>, and nothing after the
  padding. It is not in strict mode: the unused low bits of a padded group are not
  checked.
\<close>

definition b64_char :: "nat \<Rightarrow> char" where
  "b64_char n =
     (if n < 26 then char_of (65 + n)
      else if n < 52 then char_of (71 + n)
      else if n < 62 then char_of (n - 4)
      else if n = 62 then CHR ''+'' else CHR ''/'')"

definition b64_val :: "char \<Rightarrow> nat option" where
  "b64_val c =
     (let b = (of_char c :: nat) in
      if 65 \<le> b \<and> b \<le> 90 then Some (b - 65)
      else if 97 \<le> b \<and> b \<le> 122 then Some (b - 71)
      else if 48 \<le> b \<and> b \<le> 57 then Some (b + 4)
      else if b = 43 then Some 62
      else if b = 47 then Some 63
      else None)"

fun EncodeToString64 :: "string \<Rightarrow> string" where
  "EncodeToString64 (x # y # z # bs) =
     (let v = of_char x * 65536 + of_char y * 256 + (of_char z :: nat) in
      b64_char (v div 262144) # b64_char (v div 4096 mod 64) # b64_char (v div 64 mod 64)
        # b64_char (v mod 64) # EncodeToString64 bs)"
| "EncodeToString64 [x, y] =
     (let v = of_char x * 65536 + (of_char y :: nat) * 256 in
      [b64_char (v div 262144), b64_char (v div 4096 mod 64), b64_char (v div 64 mod 64),
       CHR ''=''])"
| "EncodeToString64 [x] =
     (let v = (of_char x :: nat) * 65536 in
      [b64_char (v div 262144), b64_char (v div 4096 mod 64), CHR ''='', CHR ''=''])"
| "EncodeToString64 [] = []"

fun decode_quanta :: "string \<Rightarrow> string option" where
  "decode_quanta [] = Some []"
| "decode_quanta (a # b # c # d # rest) =
     (case (b64_val a, b64_val b) of
        (Some va, Some vb) \<Rightarrow>
          (case (b64_val c, b64_val d) of
             (Some vc, Some vd) \<Rightarrow>
               (let v = va * 262144 + vb * 4096 + vc * 64 + vd in
                case decode_quanta rest of
                  None \<Rightarrow> None
                | Some bs \<Rightarrow>
                    Some (char_of (v div 65536) # char_of (v div 256 mod 256)
                            # char_of (v mod 256) # bs))
           | (Some vc, None) \<Rightarrow>
               (if d = CHR ''='' \<and> rest = []
                then (let v = va * 262144 + vb * 4096 + vc * 64 in
                      Some [char_of (v div 65536), char_of (v div 256 mod 256)])
                else None)
           | (None, _) \<Rightarrow>
               (if c = CHR ''='' \<and> d = CHR ''='' \<and> rest = []
                then (let v = va * 262144 + vb * 4096 in Some [char_of (v div 65536)])
                else None))
      | _ \<Rightarrow> None)"
| "decode_quanta _ = None"

definition DecodeString64 :: "string \<Rightarrow> string option" where
  "DecodeString64 s = decode_quanta (filter (\<lambda>c. c \<noteq> CHR 0x0D \<and> c \<noteq> CHR 0x0A) s)"

text \<open>\<^verbatim>\<open>hex.EncodeToString\<close> (lower case) and \<^verbatim>\<open>hex.DecodeString\<close> (either case, an even
  number of digits).\<close>

definition hex_digit :: "nat \<Rightarrow> char" where
  "hex_digit n = (if n < 10 then char_of (48 + n) else char_of (87 + n))"

definition hex_val :: "char \<Rightarrow> nat option" where
  "hex_val c =
     (let b = (of_char c :: nat) in
      if 48 \<le> b \<and> b \<le> 57 then Some (b - 48)
      else if 97 \<le> b \<and> b \<le> 102 then Some (b - 87)
      else if 65 \<le> b \<and> b \<le> 70 then Some (b - 55)
      else None)"

fun EncodeToStringHex :: "string \<Rightarrow> string" where
  "EncodeToStringHex [] = []"
| "EncodeToStringHex (b # bs) =
     hex_digit (of_char b div 16) # hex_digit (of_char b mod 16) # EncodeToStringHex bs"

fun DecodeStringHex :: "string \<Rightarrow> string option" where
  "DecodeStringHex [] = Some []"
| "DecodeStringHex [c] = None"
| "DecodeStringHex (c # d # cs) =
     (case (hex_val c, hex_val d) of
        (Some h, Some l) \<Rightarrow>
          (case DecodeStringHex cs of
             None \<Rightarrow> None
           | Some bs \<Rightarrow> Some (char_of (h * 16 + l) # bs))
      | _ \<Rightarrow> None)"

section \<open>JSON string literals (encoding/json)\<close>

text \<open>
  \<^verbatim>\<open>json.Unmarshal(bodyLine, &base64Str)\<close> accepts one JSON value between optional
  white space (space, tab, carriage return, newline). A string literal is unquoted:
  escapes are resolved, a \<^verbatim>\<open>\uXXXX\<close> escape becomes the UTF-8 encoding of its rune
  (a surrogate pair one rune, a lone surrogate U+FFFD), a byte that is not valid UTF-8
  becomes U+FFFD. The value \<^verbatim>\<open>null\<close> leaves the string empty. Every other input is an
  error.
\<close>

definition json_space :: "char \<Rightarrow> bool" where
  "json_space c = (c = CHR 0x20 \<or> c = CHR 0x09 \<or> c = CHR 0x0D \<or> c = CHR 0x0A)"

definition hexval4 :: "string \<Rightarrow> nat option" where
  "hexval4 s =
     (case s of
        a # b # c # d # _ \<Rightarrow>
          (case (hex_val a, hex_val b, hex_val c, hex_val d) of
             (Some w, Some x, Some y, Some z) \<Rightarrow> Some (((w * 16 + x) * 16 + y) * 16 + z)
           | _ \<Rightarrow> None)
      | _ \<Rightarrow> None)"

definition RuneError :: string where
  "RuneError = [CHR 0xEF, CHR 0xBF, CHR 0xBD]"

definition EncodeRune :: "nat \<Rightarrow> string" where
  "EncodeRune r =
     (if r < 0x80 then [char_of r]
      else if r < 0x800 then [char_of (0xC0 + r div 64), char_of (0x80 + r mod 64)]
      else if (0xD800 \<le> r \<and> r < 0xE000) \<or> 0x10FFFF < r then RuneError
      else if r < 0x10000
        then [char_of (0xE0 + r div 4096), char_of (0x80 + r div 64 mod 64),
              char_of (0x80 + r mod 64)]
      else [char_of (0xF0 + r div 262144), char_of (0x80 + r div 4096 mod 64),
            char_of (0x80 + r div 64 mod 64), char_of (0x80 + r mod 64)])"

definition continuation :: "char \<Rightarrow> bool" where
  "continuation c = (0x80 \<le> (of_char c :: nat) \<and> (of_char c :: nat) \<le> 0xBF)"

text \<open>The width of the valid UTF-8 encoding a string starts with, 0 when there is none
  (\<^verbatim>\<open>utf8.DecodeRune\<close> then returns the error rune with width 1).\<close>

definition utf8_width :: "string \<Rightarrow> nat" where
  "utf8_width s =
     (case s of
        [] \<Rightarrow> 0
      | c # cs \<Rightarrow>
          (let b = (of_char c :: nat);
               lo = (if b = 0xE0 then 0xA0 else if b = 0xF0 then 0x90 else 0x80);
               hi = (if b = 0xED then 0x9F else if b = 0xF4 then 0x8F else 0xBF);
               n = (if b < 0x80 then 1 else if 0xC2 \<le> b \<and> b \<le> 0xDF then 2
                    else if 0xE0 \<le> b \<and> b \<le> 0xEF then 3
                    else if 0xF0 \<le> b \<and> b \<le> 0xF4 then 4 else 0)
           in if n = 0 then 0
              else if n = 1 then 1
              else if length cs < n - 1 then 0
              else if \<not> (lo \<le> (of_char (hd cs) :: nat) \<and> (of_char (hd cs) :: nat) \<le> hi) then 0
              else if \<not> list_all continuation (take (n - 2) (tl cs)) then 0
              else n))"

definition simple_escape :: "char \<Rightarrow> char option" where
  "simple_escape e =
     (if e = CHR 0x22 \<or> e = CHR 0x5C \<or> e = CHR ''/'' then Some e
      else if e = CHR ''b'' then Some (CHR 0x08)
      else if e = CHR ''f'' then Some (CHR 0x0C)
      else if e = CHR ''n'' then Some (CHR 0x0A)
      else if e = CHR ''r'' then Some (CHR 0x0D)
      else if e = CHR ''t'' then Some (CHR 0x09)
      else None)"

definition surrogate_pair :: "nat \<Rightarrow> string \<Rightarrow> nat option" where
  "surrogate_pair r s =
     (case s of
        b # u # hs \<Rightarrow>
          (if b = CHR 0x5C \<and> u = CHR ''u'' \<and> 0xD800 \<le> r \<and> r < 0xDC00 then
             (case hexval4 hs of
                Some r2 \<Rightarrow>
                  if 0xDC00 \<le> r2 \<and> r2 < 0xE000
                  then Some ((r - 0xD800) * 1024 + (r2 - 0xDC00) + 0x10000) else None
              | None \<Rightarrow> None)
           else None)
      | _ \<Rightarrow> None)"

definition emit :: "string \<Rightarrow> (string \<times> string) option \<Rightarrow> (string \<times> string) option" where
  "emit bs r = (case r of None \<Rightarrow> None | Some (s, rest) \<Rightarrow> Some (bs @ s, rest))"

text \<open>The characters of a string literal after its opening quote: the unquoted string and
  what follows the closing quote.\<close>

function unquote :: "string \<Rightarrow> (string \<times> string) option" where
  "unquote [] = None"
| "unquote (c # cs) =
     (if c = CHR 0x22 then Some ([], cs)
      else if c = CHR 0x5C then
        (case cs of
           [] \<Rightarrow> None
         | e # es \<Rightarrow>
             if e = CHR ''u'' then
               (case hexval4 es of
                  None \<Rightarrow> None
                | Some r \<Rightarrow>
                    (case surrogate_pair r (drop 4 es) of
                       Some dec \<Rightarrow> emit (EncodeRune dec) (unquote (drop 10 es))
                     | None \<Rightarrow> emit (EncodeRune r) (unquote (drop 4 es))))
             else (case simple_escape e of
                     None \<Rightarrow> None
                   | Some d \<Rightarrow> emit [d] (unquote es)))
      else if (of_char c :: nat) < 0x20 then None
      else if (of_char c :: nat) < 0x80 then emit [c] (unquote cs)
      else if utf8_width (c # cs) = 0 then emit RuneError (unquote cs)
      else emit (take (utf8_width (c # cs)) (c # cs)) (unquote (drop (utf8_width (c # cs) - 1) cs)))"
  by pat_completeness auto
termination
  by (relation "measure length") auto

definition Unmarshal_string :: "string \<Rightarrow> string option" where
  "Unmarshal_string data =
     (let s = dropWhile json_space data in
      case s of
        [] \<Rightarrow> None
      | c # cs \<Rightarrow>
          if c = CHR 0x22 then
            (case unquote cs of
               None \<Rightarrow> None
             | Some (str, rest) \<Rightarrow> if dropWhile json_space rest = [] then Some str else None)
          else if HasPrefix s ''null'' \<and> dropWhile json_space (drop 4 s) = [] then Some []
          else None)"

section \<open>Requests: ReadRequest\<close>

text \<open>
  The \<^verbatim>\<open>Request\<close> struct. The fields \<^verbatim>\<open>ID\<close> and \<^verbatim>\<open>OutputID\<close> are \<open>ReqID\<close> and
  \<open>ReqOutputID\<close> here (a response has fields of the same names). \<^verbatim>\<open>Body\<close> is the
  reader: \<open>None\<close> is nil, \<open>Some bs\<close> a \<^verbatim>\<open>strings.Reader\<close> over \<open>bs\<close>.
\<close>

record Request =
  ReqID :: int
  Command :: string
  ActionID :: string
  ReqOutputID :: string
  Body :: "string option"
  BodySize :: int

definition CmdPut :: string where "CmdPut = ''put''"
definition CmdGet :: string where "CmdGet = ''get''"
definition CmdClose :: string where "CmdClose = ''close''"

datatype read_error =
    EOF
  | ReadRequestFailed
  | UnmarshalRequestFailed
  | BodyLineFailed
  | UnmarshalBodyFailed
  | DecodeBase64Failed

text \<open>
  \<^verbatim>\<open>ReadRequest\<close>. The decoder of the request line, \<^verbatim>\<open>json.Unmarshal(line, &req)\<close>,
  is the parameter \<open>unmarshal\<close>: the function reads the line, decodes it, and for a put
  with \<^verbatim>\<open>BodySize > 0\<close> reads the next line as the body.
\<close>

definition ReadRequest ::
  "(string \<Rightarrow> Request option) \<Rightarrow> stdin \<Rightarrow> (read_error + Request) \<times> stdin" where
  "ReadRequest unmarshal r =
     (case readLine r of
        (Inl e, r1) \<Rightarrow> (Inl (if e = io_EOF then EOF else ReadRequestFailed), r1)
      | (Inr line, r1) \<Rightarrow>
          (case unmarshal line of
             None \<Rightarrow> (Inl UnmarshalRequestFailed, r1)
           | Some req \<Rightarrow>
               if Command req = CmdPut \<and> BodySize req > 0 then
                 (case readLine r1 of
                    (Inl e, r2) \<Rightarrow> (Inl (if e = io_EOF then EOF else BodyLineFailed), r2)
                  | (Inr bodyLine, r2) \<Rightarrow>
                      (case Unmarshal_string bodyLine of
                         None \<Rightarrow> (Inl UnmarshalBodyFailed, r2)
                       | Some base64Str \<Rightarrow>
                           (case DecodeString64 base64Str of
                              None \<Rightarrow> (Inl DecodeBase64Failed, r2)
                            | Some bodyData \<Rightarrow> (Inr (req\<lparr>Body := Some bodyData\<rparr>), r2))))
               else (Inr req, r1)))"

section \<open>Responses: json.Marshal and SendResponse\<close>

text \<open>
  The \<^verbatim>\<open>Response\<close> struct. Every field carries the tag \<^verbatim>\<open>json:",omitempty"\<close>: a zero
  number, a false boolean, an empty string or slice and a nil pointer are left out of the
  object. \<^verbatim>\<open>Time\<close> is a pointer to a time, here the seconds since the epoch or
  \<open>None\<close> for nil.
\<close>

record Response =
  ID :: int
  Err :: string
  KnownCommands :: "string list"
  Miss :: bool
  OutputID :: string
  Size :: int
  Time :: "int option"
  DiskPath :: string

definition zero_Response :: Response where
  "zero_Response =
     \<lparr>ID = 0, Err = [], KnownCommands = [], Miss = False, OutputID = [], Size = 0,
      Time = None, DiskPath = []\<rparr>"

function FormatUint :: "nat \<Rightarrow> string" where
  "FormatUint n = (if n < 10 then [char_of (48 + n)] else FormatUint (n div 10) @ [char_of (48 + n mod 10)])"
  by pat_completeness auto
termination
  by (relation "measure id") auto

declare FormatUint.simps [simp del]

definition FormatInt :: "int \<Rightarrow> string" where
  "FormatInt i = (if i < 0 then CHR ''-'' # FormatUint (nat (- i)) else FormatUint (nat i))"

text \<open>
  A string as \<^verbatim>\<open>json.Marshal\<close> writes it (with HTML escaping, its default): printable
  ASCII as it is but for the quote, the backslash and \<^verbatim>\<open>< > &\<close>; short escapes for
  backspace, form feed, newline, carriage return and tab; a six-character escape with two hex digits for the other
  ASCII bytes it escapes; the escape of U+FFFD for a byte that is not valid UTF-8; the
  escapes of U+2028 and U+2029 for these two runes; every other rune as it is.
\<close>

definition escape_ascii :: "char \<Rightarrow> string" where
  "escape_ascii c =
     (let b = (of_char c :: nat) in
      if c = CHR 0x22 \<or> c = CHR 0x5C then [CHR 0x5C, c]
      else if c = CHR 0x08 then [CHR 0x5C, CHR ''b'']
      else if c = CHR 0x0C then [CHR 0x5C, CHR ''f'']
      else if c = CHR 0x0A then [CHR 0x5C, CHR ''n'']
      else if c = CHR 0x0D then [CHR 0x5C, CHR ''r'']
      else if c = CHR 0x09 then [CHR 0x5C, CHR ''t'']
      else if b < 0x20 \<or> c = CHR ''<'' \<or> c = CHR ''>'' \<or> c = CHR ''&''
        then [CHR 0x5C, CHR ''u'', CHR ''0'', CHR ''0'', hex_digit (b div 16), hex_digit (b mod 16)]
      else [c])"

function json_chars :: "string \<Rightarrow> string" where
  "json_chars [] = []"
| "json_chars (c # cs) =
     (if (of_char c :: nat) < 0x80 then escape_ascii c @ json_chars cs
      else if utf8_width (c # cs) = 0 then CHR 0x5C # ''ufffd'' @ json_chars cs
      else if take 3 (c # cs) = [CHR 0xE2, CHR 0x80, CHR 0xA8]
        then CHR 0x5C # ''u2028'' @ json_chars (drop 2 cs)
      else if take 3 (c # cs) = [CHR 0xE2, CHR 0x80, CHR 0xA9]
        then CHR 0x5C # ''u2029'' @ json_chars (drop 2 cs)
      else take (utf8_width (c # cs)) (c # cs) @ json_chars (drop (utf8_width (c # cs) - 1) cs))"
  by pat_completeness auto
termination
  by (relation "measure length") auto

definition json_string :: "string \<Rightarrow> string" where
  "json_string s = CHR 0x22 # json_chars s @ [CHR 0x22]"

fun join_with :: "string \<Rightarrow> string list \<Rightarrow> string" where
  "join_with sep [] = []"
| "join_with sep [x] = x"
| "join_with sep (x # y # ys) = x @ sep @ join_with sep (y # ys)"

definition json_field :: "string \<Rightarrow> string \<Rightarrow> string" where
  "json_field name v = json_string name @ '':'' @ v"

text \<open>
  \<^verbatim>\<open>json.Marshal(resp)\<close>: the fields in the order of the struct, the empty ones left
  out. How a time is written depends on the time zone of the process; \<open>time_json\<close> stands
  for it, and is \<open>None\<close> where \<^verbatim>\<open>Time.MarshalJSON\<close> fails (a year outside 0..9999),
  the one way this \<^verbatim>\<open>Marshal\<close> can fail.
\<close>

definition Marshal :: "(int \<Rightarrow> string option) \<Rightarrow> Response \<Rightarrow> string option" where
  "Marshal time_json resp =
     (if (case Time resp of None \<Rightarrow> False | Some t \<Rightarrow> time_json t = None) then None
      else Some (''{'' @ join_with '','' (concat
        [if ID resp = 0 then [] else [json_field ''ID'' (FormatInt (ID resp))],
         if Err resp = [] then [] else [json_field ''Err'' (json_string (Err resp))],
         if KnownCommands resp = [] then []
         else [json_field ''KnownCommands''
                 (''['' @ join_with '','' (map json_string (KnownCommands resp)) @ '']'')],
         if Miss resp then [json_field ''Miss'' ''true''] else [],
         if OutputID resp = [] then []
         else [json_field ''OutputID'' (json_string (EncodeToString64 (OutputID resp)))],
         if Size resp = 0 then [] else [json_field ''Size'' (FormatInt (Size resp))],
         (case Time resp of None \<Rightarrow> [] | Some t \<Rightarrow> [json_field ''Time'' (the (time_json t))]),
         if DiskPath resp = [] then [] else [json_field ''DiskPath'' (json_string (DiskPath resp))]])
        @ ''}''))"

text \<open>
  Standard output: the bytes written so far, and whether writing fails (\<open>closed\<close>).
  \<^verbatim>\<open>SendResponse\<close> writes the object and one newline and flushes.
\<close>

record stdout =
  written :: string
  closed :: bool

datatype send_error = MarshalFailed | WriteFailed

definition SendResponse ::
  "(int \<Rightarrow> string option) \<Rightarrow> Response \<Rightarrow> stdout \<Rightarrow> send_error option \<times> stdout" where
  "SendResponse time_json resp w =
     (case Marshal time_json resp of
        None \<Rightarrow> (Some MarshalFailed, w)
      | Some data \<Rightarrow>
          if closed w then (Some WriteFailed, w)
          else (None, w\<lparr>written := written w @ data @ [newline]\<rparr>))"

definition SendInitialResponse ::
  "(int \<Rightarrow> string option) \<Rightarrow> stdout \<Rightarrow> send_error option \<times> stdout" where
  "SendInitialResponse time_json w =
     SendResponse time_json (zero_Response\<lparr>ID := 0, KnownCommands := [CmdPut, CmdGet, CmdClose]\<rparr>) w"

section \<open>The broker: HandleRequest, HandleRequestWithRetries, Run\<close>

text \<open>
  The backend is the interface \<^verbatim>\<open>backends.Backend\<close> as the broker calls it: functions
  on a state \<open>'b\<close> of the backend's own. An error is its message (\<^verbatim>\<open>err.Error()\<close>),
  \<open>None\<close> is nil. \<^verbatim>\<open>Put\<close> is handed the request's reader and may read from it: it
  returns the reader as it leaves it. \<^verbatim>\<open>Get\<close> returns
  \<^verbatim>\<open>(outputID, diskPath, size, putTime, miss)\<close> and the error.
\<close>

record 'b Backend =
  Put :: "string \<Rightarrow> string \<Rightarrow> string option \<Rightarrow> int \<Rightarrow> 'b
            \<Rightarrow> (string \<times> string option \<times> string option) \<times> 'b"
  Get :: "string \<Rightarrow> 'b
            \<Rightarrow> ((string \<times> string \<times> int \<times> int option \<times> bool) \<times> string option) \<times> 'b"
  Close :: "'b \<Rightarrow> string option \<times> 'b"

text \<open>The fields of \<^verbatim>\<open>CacheProg\<close> that requests change: the backend's state and the
  statistics. Log output and the debug prints on standard error are left out.\<close>

record 'b CacheProg =
  backend :: 'b
  debug :: bool
  seenActionIDs :: "string \<rightharpoonup> int"
  duplicateGets :: int
  duplicatePuts :: int
  putCount :: int
  getCount :: int
  hitCount :: int
  deduplicatedGets :: int
  deduplicatedPuts :: int
  retriedRequests :: int
  totalRetries :: int

definition trackActionID :: "string \<Rightarrow> 'b CacheProg \<Rightarrow> bool \<times> 'b CacheProg" where
  "trackActionID actionID cp =
     (if \<not> debug cp then (False, cp)
      else (let actionIDStr = EncodeToStringHex actionID;
                count = (case seenActionIDs cp actionIDStr of None \<Rightarrow> 0 | Some n \<Rightarrow> n)
            in (count > 0, cp\<lparr>seenActionIDs := (seenActionIDs cp)(actionIDStr \<mapsto> count + 1)\<rparr>)))"

text \<open>
  \<^verbatim>\<open>sfGroup.Do(key, fn)\<close>, the single-flight group. Requests are handled one after
  another in this model, so a call never finds a call of its key in flight: it runs
  \<^verbatim>\<open>fn\<close> and returns its result with shared = false.
\<close>

definition sfGroup_Do :: "string \<Rightarrow> ('s \<Rightarrow> 'v \<times> 's) \<Rightarrow> 's \<Rightarrow> ('v \<times> bool) \<times> 's" where
  "sfGroup_Do key fn s = (case fn s of (v, s') \<Rightarrow> ((v, False), s'))"

definition HandleRequest ::
  "'b Backend \<Rightarrow> Request \<Rightarrow> 'b CacheProg
     \<Rightarrow> (Response \<times> string option) \<times> Request \<times> 'b CacheProg" where
  "HandleRequest b req cp =
     (let resp = zero_Response\<lparr>ID := ReqID req\<rparr> in
      if Command req = CmdPut then
        (let cp1 = cp\<lparr>putCount := putCount cp + 1\<rparr>;
             (isDuplicate, cp2) = trackActionID (ActionID req) cp1;
             cp3 = (if isDuplicate then cp2\<lparr>duplicatePuts := duplicatePuts cp2 + 1\<rparr> else cp2);
             key = ''put:'' @ EncodeToStringHex (ActionID req);
             (((diskPath, err, body'), shared), bs) =
                sfGroup_Do key
                  (Put b (ActionID req) (ReqOutputID req) (Body req) (BodySize req)) (backend cp3);
             cp4 = cp3\<lparr>backend := bs\<rparr>;
             cp5 = (if shared then cp4\<lparr>deduplicatedPuts := deduplicatedPuts cp4 + 1\<rparr> else cp4);
             req' = req\<lparr>Body := body'\<rparr>
         in case err of
              Some e \<Rightarrow> ((resp\<lparr>Err := e, Miss := True\<rparr>, Some e), req', cp5)
            | None \<Rightarrow> ((resp\<lparr>DiskPath := diskPath\<rparr>, None), req', cp5))
      else if Command req = CmdGet then
        (let cp1 = cp\<lparr>getCount := getCount cp + 1\<rparr>;
             (isDuplicate, cp2) = trackActionID (ActionID req) cp1;
             cp3 = (if isDuplicate then cp2\<lparr>duplicateGets := duplicateGets cp2 + 1\<rparr> else cp2);
             key = ''get:'' @ EncodeToStringHex (ActionID req);
             ((((outputID, diskPath, sz, putTime, miss), err), shared), bs) =
                sfGroup_Do key (Get b (ActionID req)) (backend cp3);
             cp4 = cp3\<lparr>backend := bs\<rparr>;
             cp5 = (if shared then cp4\<lparr>deduplicatedGets := deduplicatedGets cp4 + 1\<rparr> else cp4)
         in case err of
              Some e \<Rightarrow> ((resp\<lparr>Err := e, Miss := True\<rparr>, Some e), req, cp5)
            | None \<Rightarrow>
                if \<not> miss then
                  ((resp\<lparr>Miss := miss, OutputID := outputID, DiskPath := diskPath, Size := sz,
                          Time := putTime\<rparr>, None),
                   req, cp5\<lparr>hitCount := hitCount cp5 + 1\<rparr>)
                else ((resp\<lparr>Miss := miss\<rparr>, None), req, cp5))
      else if Command req = CmdClose then
        (case Close b (backend cp) of
           (Some e, bs) \<Rightarrow> ((resp\<lparr>Err := e\<rparr>, Some e), req, cp\<lparr>backend := bs\<rparr>)
         | (None, bs) \<Rightarrow> ((resp, None), req, cp\<lparr>backend := bs\<rparr>))
      else ((resp\<lparr>Err := ''unknown command: '' @ Command req\<rparr>,
             Some (''unknown command: '' @ Command req)), req, cp))"

text \<open>
  \<^verbatim>\<open>HandleRequestWithRetries\<close>. The loop carries \<^verbatim>\<open>resp\<close>, \<^verbatim>\<open>err\<close> and \<^verbatim>\<open>attempt\<close>
  as the source does; \<^verbatim>\<open>maxRetries\<close> and \<^verbatim>\<open>attempt\<close> are Go ints (the loop leaves
  before \<^verbatim>\<open>attempt\<close> passes \<^verbatim>\<open>maxRetries\<close>, so it never overflows). The delay is a
  \<^verbatim>\<open>time.Duration\<close>, a signed 64-bit count of nanoseconds:
  \<^verbatim>\<open>baseDelay * time.Duration(1<<uint(attempt))\<close> is computed in 64 bits. Beside its
  result the loop returns what it did, in order: each call of \<^verbatim>\<open>HandleRequest\<close> with
  what it returned, and each \<^verbatim>\<open>time.Sleep\<close> with its duration.
\<close>

datatype retry_event = Attempt Response "string option" | Sleep "64 word"

definition baseDelay :: "64 word" where
  "baseDelay = 10 * 1000000"

definition backoff :: "int \<Rightarrow> 64 word" where
  "backoff attempt = baseDelay * push_bit (nat attempt) 1"

function retry_loop ::
  "'b Backend \<Rightarrow> int \<Rightarrow> int \<Rightarrow> Response \<times> string option \<Rightarrow> Request \<Rightarrow> 'b CacheProg
     \<Rightarrow> ((Response \<times> string option) \<times> retry_event list) \<times> Request \<times> 'b CacheProg" where
  "retry_loop b maxRetries attempt cur req cp =
     (if attempt \<le> maxRetries then
        (case HandleRequest b req cp of
           ((resp, err), req1, cp1) \<Rightarrow>
             if err = None \<or> Command req = CmdClose
               then (((resp, err), [Attempt resp err]), req1, cp1)
             else if attempt \<ge> maxRetries
               then (((resp, err), [Attempt resp err]), req1, cp1)
             else
               (let cp2 = (if attempt = 0
                           then cp1\<lparr>retriedRequests := retriedRequests cp1 + 1\<rparr> else cp1);
                    cp3 = cp2\<lparr>totalRetries := totalRetries cp2 + 1\<rparr>;
                    delay = backoff attempt
                in case retry_loop b maxRetries (attempt + 1) (resp, err) req1 cp3 of
                     ((res, evs), req', cp') \<Rightarrow>
                       ((res, Attempt resp err # Sleep delay # evs), req', cp')))
      else ((cur, []), req, cp))"
  by pat_completeness auto
termination
  by (relation "measure (\<lambda>(b, maxRetries, attempt, cur, req, cp). nat (maxRetries + 1 - attempt))")
     auto

declare retry_loop.simps [simp del]

definition HandleRequestWithRetries ::
  "'b Backend \<Rightarrow> Request \<Rightarrow> int \<Rightarrow> 'b CacheProg
     \<Rightarrow> (Response \<times> string option) \<times> Request \<times> 'b CacheProg" where
  "HandleRequestWithRetries b req maxRetries cp =
     (case retry_loop b maxRetries 0 (zero_Response, None) req cp of
        ((res, evs), req', cp') \<Rightarrow> (res, req', cp'))"

text \<open>
  \<^verbatim>\<open>Run\<close> on the schedule in which the handlers run one after another: the goroutine
  of a request runs to its end before the next request is read (the other schedules are
  those of the step relation in the section on the goroutines, and this function is one
  of its runs). A response that cannot be sent ends the loop with the error the goroutine
  puts on \<^verbatim>\<open>errChan\<close>. Beside its result the loop returns what it did, in order: each
  request \<^verbatim>\<open>ReadRequest\<close> returned, with the response handed to \<^verbatim>\<open>SendResponse\<close> for it.
\<close>

datatype run_error =
    InitialResponseFailed
  | ReadFailed read_error
  | SendCloseResponseFailed
  | SendResponseFailed

function Run_loop ::
  "(string \<Rightarrow> Request option) \<Rightarrow> (int \<Rightarrow> string option) \<Rightarrow> 'b Backend
     \<Rightarrow> stdin \<Rightarrow> stdout \<Rightarrow> 'b CacheProg
     \<Rightarrow> run_error option \<times> (Request \<times> Response) list \<times> stdin \<times> stdout \<times> 'b CacheProg" where
  "Run_loop unmarshal time_json b r w cp =
     (case ReadRequest unmarshal r of
        (Inl e, r') \<Rightarrow> (if e = EOF then None else Some (ReadFailed e), [], r', w, cp)
      | (Inr req, r') \<Rightarrow>
          (case HandleRequest b req cp of
             ((resp, err), req', cp') \<Rightarrow>
               (let resp' = (case err of Some e \<Rightarrow> resp\<lparr>Err := e\<rparr> | None \<Rightarrow> resp) in
                case SendResponse time_json resp' w of
                  (Some e, w') \<Rightarrow>
                    (Some (if Command req = CmdClose then SendCloseResponseFailed
                           else SendResponseFailed), [(req, resp')], r', w', cp')
                | (None, w') \<Rightarrow>
                    if Command req = CmdClose then (None, [(req, resp')], r', w', cp')
                    else (case Run_loop unmarshal time_json b r' w' cp' of
                            (e, xs, rest) \<Rightarrow> (e, (req, resp') # xs, rest)))))"
  by pat_completeness auto
termination
proof (relation "measure (\<lambda>(unmarshal, time_json, b, r, w, cp). length (pending r))", goal_cases)
  case 1
  show ?case by simp
next
  case (2 unmarshal time_json b r w cp x xa req)
  have shrink: "length (pending r2) < length (pending r1)"
    if "readLine r1 = (Inr l, r2)" for r1 r2 l
    using that
  proof (induction r1 rule: readLine.induct)
    case (1 r)
    show ?case
    proof (cases "newline \<in> set (pending r)")
      case False
      with 1(2) show ?thesis
        by (subst (asm) readLine.simps) (simp add: ReadBytes_def)
    next
      case True
      let ?l = "takeWhile (\<lambda>c. c \<noteq> newline) (pending r)"
      let ?r = "r\<lparr>pending := tl (dropWhile (\<lambda>c. c \<noteq> newline) (pending r))\<rparr>"
      have rb: "ReadBytes r = (Some (?l @ [newline]), ?r)"
        using True by (simp add: ReadBytes_def)
      from True have "dropWhile (\<lambda>c. c \<noteq> newline) (pending r) \<noteq> []" by simp
      then have "length (tl (dropWhile (\<lambda>c. c \<noteq> newline) (pending r)))
                   < length (dropWhile (\<lambda>c. c \<noteq> newline) (pending r))"
        by (cases "dropWhile (\<lambda>c. c \<noteq> newline) (pending r)") simp_all
      also have "\<dots> \<le> length (pending r)" by (rule length_dropWhile_le)
      finally have less: "length (pending ?r) < length (pending r)" by simp
      show ?thesis
      proof (cases "0 < length (TrimSpace ?l)")
        case True
        with 1(2) rb have "r2 = ?r"
          by (subst (asm) readLine.simps) simp
        with less show ?thesis by simp
      next
        case False
        with 1(2) rb have "readLine ?r = (Inr l, r2)"
          by (subst (asm) readLine.simps) simp
        with 1(1)[OF rb[symmetric] refl] False rb have "length (pending r2) < length (pending ?r)"
          by simp
        with less show ?thesis by simp
      qed
    qed
  qed
  have keep: "length (pending r2) \<le> length (pending r1)"
    if "readLine r1 = (res, r2)" for r1 r2 res
  proof (cases res)
    case (Inl e)
    with that show ?thesis
    proof (induction r1 rule: readLine.induct)
      case (1 r)
      show ?case
      proof (cases "newline \<in> set (pending r)")
        case False
        with 1(2) show ?thesis
          by (subst (asm) readLine.simps) (auto simp: ReadBytes_def)
      next
        case True
        let ?l = "takeWhile (\<lambda>c. c \<noteq> newline) (pending r)"
        let ?r = "r\<lparr>pending := tl (dropWhile (\<lambda>c. c \<noteq> newline) (pending r))\<rparr>"
        have rb: "ReadBytes r = (Some (?l @ [newline]), ?r)"
          using True by (simp add: ReadBytes_def)
        have "length (tl (dropWhile (\<lambda>c. c \<noteq> newline) (pending r)))
                   \<le> length (dropWhile (\<lambda>c. c \<noteq> newline) (pending r))"
          by simp
        also have "\<dots> \<le> length (pending r)" by (rule length_dropWhile_le)
        finally have le: "length (pending ?r) \<le> length (pending r)" by simp
        show ?thesis
        proof (cases "0 < length (TrimSpace ?l)")
          case True
          with 1(2) rb 1(3) show ?thesis
            by (subst (asm) readLine.simps) simp
        next
          case False
          with 1(2) rb have "readLine ?r = (res, r2)"
            by (subst (asm) readLine.simps) simp
          with 1(1)[OF rb[symmetric] refl] False rb 1(3)
          have "length (pending r2) \<le> length (pending ?r)" by simp
          with le show ?thesis by simp
        qed
      qed
    qed
  next
    case (Inr l)
    with that shrink[of r1 l r2] show ?thesis by simp
  qed
  from 2 have rr: "ReadRequest unmarshal r = (Inr req, xa)" by simp
  have "length (pending xa) < length (pending r)"
  proof (cases "readLine r")
    case (Pair res r1)
    show ?thesis
    proof (cases res)
      case (Inl e)
      with Pair rr show ?thesis by (simp add: ReadRequest_def)
    next
      case (Inr line)
      with Pair have l1: "length (pending r1) < length (pending r)"
        using shrink by simp
      obtain res2 r2 where p2: "readLine r1 = (res2, r2)" by (cases "readLine r1")
      then have l2: "length (pending r2) \<le> length (pending r1)" using keep by simp
      from rr Pair Inr p2 have "xa = r1 \<or> xa = r2"
        by (auto simp: ReadRequest_def split: option.splits if_splits sum.splits)
      with l1 l2 show ?thesis by auto
    qed
  qed
  then show ?case by simp
qed

declare Run_loop.simps [simp del]

definition Run ::
  "(string \<Rightarrow> Request option) \<Rightarrow> (int \<Rightarrow> string option) \<Rightarrow> 'b Backend
     \<Rightarrow> stdin \<Rightarrow> stdout \<Rightarrow> 'b CacheProg
     \<Rightarrow> run_error option \<times> (Request \<times> Response) list \<times> stdin \<times> stdout \<times> 'b CacheProg" where
  "Run unmarshal time_json b r w cp =
     (case SendInitialResponse time_json w of
        (Some e, w') \<Rightarrow> (Some InitialResponseFailed, [], r, w', cp)
      | (None, w') \<Rightarrow> Run_loop unmarshal time_json b r w' cp)"

section \<open>The file system\<close>

text \<open>
  The files the cache touches: a path names a regular file with its bytes, a directory,
  or nothing. An operation fails where a directory stands in its way or the file is
  missing; other failures of the operating system (a full disk, a missing parent
  directory, permissions) are not modelled. \<open>cwd\<close> is the working directory,
  \<open>None\<close> when \<^verbatim>\<open>os.Getwd\<close> fails.
\<close>

datatype node = File string | Dir

record fs =
  files :: "string \<rightharpoonup> node"
  cwd :: "string option"

datatype os_error = NotExist | IsDirectory | Exists

text \<open>
  \<^verbatim>\<open>filepath.Clean\<close> on a system whose separator is the slash: the elements between the
  slashes are taken in turn; an empty element and \<^verbatim>\<open>.\<close> are dropped; \<^verbatim>\<open>..\<close> takes back
  the element before it, is dropped at the root, and is kept at the start of a path that is
  not rooted; the elements that stay are joined by one slash, after the root's slash if the
  path is rooted; the empty result is \<^verbatim>\<open>.\<close>. \<^verbatim>\<open>filepath.Join\<close> drops the empty elements
  before the first one that is not empty, joins the rest with slashes and cleans the result;
  with no element left it is the empty string. \<^verbatim>\<open>filepath.Abs\<close> cleans a rooted path and
  joins another one to the working directory.
\<close>

fun Split_path :: "string \<Rightarrow> string list" where
  "Split_path [] = [[]]"
| "Split_path (c # cs) =
     (if c = CHR ''/'' then [] # Split_path cs
      else (case Split_path cs of l # ls \<Rightarrow> (c # l) # ls | [] \<Rightarrow> [[c]]))"

definition clean_element :: "bool \<Rightarrow> string list \<Rightarrow> string \<Rightarrow> string list" where
  "clean_element rooted out el =
     (if el = [] \<or> el = ''.'' then out
      else if el = ''..'' then
        (if out \<noteq> [] \<and> last out \<noteq> ''..'' then butlast out
         else if rooted then out
         else out @ [''..''])
      else out @ [el])"

definition Clean :: "string \<Rightarrow> string" where
  "Clean path =
     (let rooted = HasPrefix path ''/'';
          out = (if rooted then ''/'' else [])
                  @ join_with ''/'' (foldl (clean_element rooted) [] (Split_path path))
      in if out = [] then ''.'' else out)"

definition Join :: "string \<Rightarrow> string \<Rightarrow> string" where
  "Join dir name =
     (if dir \<noteq> [] then Clean (dir @ ''/'' @ name)
      else if name \<noteq> [] then Clean name
      else [])"

definition Abs :: "fs \<Rightarrow> string \<Rightarrow> string option" where
  "Abs f path =
     (if HasPrefix path ''/'' then Some (Clean path)
      else (case cwd f of None \<Rightarrow> None | Some wd \<Rightarrow> Some (Join wd path)))"

definition Stat :: "fs \<Rightarrow> string \<Rightarrow> os_error option" where
  "Stat f path = (case files f path of None \<Rightarrow> Some NotExist | Some n \<Rightarrow> None)"

definition ReadFile :: "fs \<Rightarrow> string \<Rightarrow> os_error + string" where
  "ReadFile f path =
     (case files f path of
        None \<Rightarrow> Inl NotExist
      | Some Dir \<Rightarrow> Inl IsDirectory
      | Some (File data) \<Rightarrow> Inr data)"

text \<open>\<^verbatim>\<open>os.WriteFile\<close> and \<^verbatim>\<open>os.Create\<close> followed by the writes: the file is created or
  truncated and holds the data.\<close>

definition WriteFile :: "string \<Rightarrow> string \<Rightarrow> fs \<Rightarrow> os_error option \<times> fs" where
  "WriteFile path data f =
     (case files f path of
        Some Dir \<Rightarrow> (Some IsDirectory, f)
      | _ \<Rightarrow> (None, f\<lparr>files := (files f)(path \<mapsto> File data)\<rparr>))"

definition Rename :: "string \<Rightarrow> string \<Rightarrow> fs \<Rightarrow> os_error option \<times> fs" where
  "Rename old new f =
     (case files f old of
        None \<Rightarrow> (Some NotExist, f)
      | Some Dir \<Rightarrow>
          (if files f new = None
           then (None, f\<lparr>files := (files f)(old := None, new \<mapsto> Dir)\<rparr>)
           else (Some Exists, f))
      | Some (File data) \<Rightarrow>
          (if files f new = Some Dir then (Some IsDirectory, f)
           else (None, f\<lparr>files := (files f)(old := None, new \<mapsto> File data)\<rparr>)))"

text \<open>\<^verbatim>\<open>os.Remove\<close> with its error ignored, as every call in the source ignores it. The
  source removes only files it has just created; a directory is left alone here.\<close>

definition Remove :: "string \<Rightarrow> fs \<Rightarrow> fs" where
  "Remove path f =
     (case files f path of
        Some (File data) \<Rightarrow> f\<lparr>files := (files f)(path := None)\<rparr>
      | _ \<Rightarrow> f)"

text \<open>\<^verbatim>\<open>os.CreateTemp(dir, ".tmp-*")\<close>: \<open>rnd\<close> is the random part of the name the call
  settles on; the call fails when that name is taken.\<close>

definition CreateTemp :: "string \<Rightarrow> string \<Rightarrow> fs \<Rightarrow> (os_error + string) \<times> fs" where
  "CreateTemp dir rnd f =
     (let path = Join dir (''.tmp-'' @ rnd) in
      if files f path \<noteq> None then (Inl Exists, f)
      else (Inr path, f\<lparr>files := (files f)(path \<mapsto> File [])\<rparr>))"

section \<open>Scanning a sidecar (fmt.Sscanf)\<close>

text \<open>
  \<^verbatim>\<open>fmt.Sscanf(line, "outputID:%s", &v)\<close> on a line that starts with the prefix: the
  verb skips white space and takes the runes up to the next white space; an invalid byte
  is stored as U+FFFD. With nothing to take the call fails and leaves \<^verbatim>\<open>v\<close> as it is.
  \<^verbatim>\<open>%d\<close> skips white space, takes one optional sign and the decimal digits that
  follow; it fails, leaving \<^verbatim>\<open>v\<close> as it is, without a digit or when the number does
  not fit 64 bits. What follows on the line is ignored.
\<close>

function token :: "string \<Rightarrow> string" where
  "token [] = []"
| "token (c # cs) =
     (if space_width (c # cs) \<noteq> 0 then []
      else if (of_char c :: nat) < 0x80 then c # token cs
      else if utf8_width (c # cs) = 0 then RuneError @ token cs
      else take (utf8_width (c # cs)) (c # cs) @ token (drop (utf8_width (c # cs) - 1) cs))"
  by pat_completeness auto
termination
  by (relation "measure length") auto

definition Sscanf_s :: "string \<Rightarrow> string option" where
  "Sscanf_s input = (let t = token (trim_left input) in if t = [] then None else Some t)"

definition is_digit :: "char \<Rightarrow> bool" where
  "is_digit c = (48 \<le> (of_char c :: nat) \<and> (of_char c :: nat) \<le> 57)"

definition digits_value :: "string \<Rightarrow> nat" where
  "digits_value ds = foldl (\<lambda>a c. a * 10 + (of_char c - 48)) 0 ds"

definition Sscanf_d :: "string \<Rightarrow> int option" where
  "Sscanf_d input =
     (let s = trim_left input;
          neg = (s \<noteq> [] \<and> hd s = CHR ''-'');
          s1 = (if s \<noteq> [] \<and> (hd s = CHR ''+'' \<or> hd s = CHR ''-'') then tl s else s);
          ds = takeWhile is_digit s1;
          v = digits_value ds
      in if ds = [] then None
         else if neg then (if v \<le> 2 ^ 63 then Some (- int v) else None)
         else (if v < 2 ^ 63 then Some (int v) else None))"

text \<open>The loop over the lines of a sidecar, shared by \<^verbatim>\<open>LocalCache.readMetadata\<close> and
  \<^verbatim>\<open>Disk.Get\<close>: the variables \<^verbatim>\<open>outputIDHex\<close>, \<^verbatim>\<open>size\<close> and \<^verbatim>\<open>putTimeUnix\<close>.\<close>

fun scan_lines :: "string list \<Rightarrow> string \<times> int \<times> int \<Rightarrow> string \<times> int \<times> int" where
  "scan_lines [] vars = vars"
| "scan_lines (l # ls) (outputIDHex, sz, putTimeUnix) =
     (let line = TrimSpace l in
      if HasPrefix line ''outputID:'' then
        scan_lines ls
          ((case Sscanf_s (drop 9 line) of None \<Rightarrow> outputIDHex | Some v \<Rightarrow> v), sz, putTimeUnix)
      else if HasPrefix line ''size:'' then
        scan_lines ls
          (outputIDHex, (case Sscanf_d (drop 5 line) of None \<Rightarrow> sz | Some v \<Rightarrow> v), putTimeUnix)
      else if HasPrefix line ''time:'' then
        scan_lines ls
          (outputIDHex, sz, (case Sscanf_d (drop 5 line) of None \<Rightarrow> putTimeUnix | Some v \<Rightarrow> v))
      else scan_lines ls (outputIDHex, sz, putTimeUnix))"

definition scan_metadata :: "string \<Rightarrow> string \<times> int \<times> int" where
  "scan_metadata data = scan_lines (Split_lines data) ([], 0, 0)"

definition format_metadata :: "string \<Rightarrow> int \<Rightarrow> int \<Rightarrow> string" where
  "format_metadata outputID sz unix =
     ''outputID:'' @ EncodeToStringHex outputID @ [newline] @ ''size:'' @ FormatInt sz @ [newline]
       @ ''time:'' @ FormatInt unix @ [newline]"

section \<open>The local cache (LocalCache)\<close>

text \<open>The metadata of an entry; \<^verbatim>\<open>PutTime\<close> is \<^verbatim>\<open>time.Unix(putTimeUnix, 0)\<close>, kept as
  its seconds. The fields \<^verbatim>\<open>OutputID\<close> and \<^verbatim>\<open>Size\<close> are \<open>MetaOutputID\<close> and
  \<open>MetaSize\<close> here.\<close>

record localCacheMetadata =
  MetaOutputID :: string
  MetaSize :: int
  PutTime :: int

record LocalCache =
  cacheDir :: string

datatype cache_error =
    MetadataNotFound
  | ReadMetadataFailed
  | MissingOutputID
  | DecodeOutputIDFailed
  | WriteTempMetadataFailed
  | RenameMetadataFailed
  | CreateTempFailed
  | WriteTempFailed
  | RenameCacheFileFailed

text \<open>A warning of the logger: the message, the action ID in hex, the error.\<close>

datatype log_entry = Warn string string cache_error

definition actionIDToPath :: "LocalCache \<Rightarrow> string \<Rightarrow> string" where
  "actionIDToPath lc actionID = Join (cacheDir lc) (EncodeToStringHex actionID)"

definition metadataPath :: "LocalCache \<Rightarrow> string \<Rightarrow> string" where
  "metadataPath lc actionID = actionIDToPath lc actionID @ ''.meta''"

definition writeMetadata ::
  "LocalCache \<Rightarrow> string \<Rightarrow> localCacheMetadata \<Rightarrow> fs \<Rightarrow> cache_error option \<times> fs" where
  "writeMetadata lc actionID meta f =
     (let metaPath = metadataPath lc actionID;
          content = format_metadata (MetaOutputID meta) (MetaSize meta) (PutTime meta);
          tmpPath = metaPath @ ''.tmp''
      in case WriteFile tmpPath content f of
           (Some e, f1) \<Rightarrow> (Some WriteTempMetadataFailed, f1)
         | (None, f1) \<Rightarrow>
             (case Rename tmpPath metaPath f1 of
                (Some e, f2) \<Rightarrow> (Some RenameMetadataFailed, Remove tmpPath f2)
              | (None, f2) \<Rightarrow> (None, f2)))"

definition readMetadata :: "LocalCache \<Rightarrow> string \<Rightarrow> fs \<Rightarrow> cache_error + localCacheMetadata" where
  "readMetadata lc actionID f =
     (case ReadFile f (metadataPath lc actionID) of
        Inl e \<Rightarrow> Inl (if e = NotExist then MetadataNotFound else ReadMetadataFailed)
      | Inr data \<Rightarrow>
          (case scan_metadata data of
             (outputIDHex, sz, putTimeUnix) \<Rightarrow>
               if outputIDHex = [] then Inl MissingOutputID
               else (case DecodeStringHex outputIDHex of
                       None \<Rightarrow> Inl DecodeOutputIDFailed
                     | Some outputID \<Rightarrow>
                         Inr \<lparr>MetaOutputID = outputID, MetaSize = sz, PutTime = putTimeUnix\<rparr>)))"

text \<open>\<^verbatim>\<open>Write\<close>. The body is a reader: the bytes it yields, and whether it then fails
  instead of ending.\<close>

definition Write ::
  "LocalCache \<Rightarrow> string \<Rightarrow> string \<times> bool \<Rightarrow> string \<Rightarrow> fs \<Rightarrow> (cache_error + string) \<times> fs" where
  "Write lc actionID body rnd f =
     (let diskPath = actionIDToPath lc actionID in
      case CreateTemp (cacheDir lc) rnd f of
        (Inl e, f1) \<Rightarrow> (Inl CreateTempFailed, f1)
      | (Inr tmpPath, f1) \<Rightarrow>
          (let f2 = f1\<lparr>files := (files f1)(tmpPath \<mapsto> File (fst body))\<rparr> in
           if snd body then (Inl WriteTempFailed, Remove tmpPath f2)
           else (case Rename tmpPath diskPath f2 of
                   (Some e, f3) \<Rightarrow> (Inl RenameCacheFileFailed, Remove tmpPath f3)
                 | (None, f3) \<Rightarrow>
                     (Inr (case Abs f3 diskPath of None \<Rightarrow> diskPath | Some p \<Rightarrow> p),
                      Remove tmpPath f3))))"

definition WriteWithMetadata ::
  "LocalCache \<Rightarrow> string \<Rightarrow> string \<times> bool \<Rightarrow> localCacheMetadata \<Rightarrow> string \<Rightarrow> fs
     \<Rightarrow> (cache_error + string) \<times> log_entry list \<times> fs" where
  "WriteWithMetadata lc actionID body meta rnd f =
     (case Write lc actionID body rnd f of
        (Inl e, f1) \<Rightarrow> (Inl e, [], f1)
      | (Inr diskPath, f1) \<Rightarrow>
          (case writeMetadata lc actionID meta f1 of
             (Some e, f2) \<Rightarrow>
               (Inr diskPath,
                [Warn ''failed to write local cache metadata'' (EncodeToStringHex actionID) e], f2)
           | (None, f2) \<Rightarrow> (Inr diskPath, [], f2)))"

definition Check :: "LocalCache \<Rightarrow> string \<Rightarrow> fs \<Rightarrow> localCacheMetadata option \<times> log_entry list" where
  "Check lc actionID f =
     (case Stat f (actionIDToPath lc actionID) of
        Some e \<Rightarrow> (None, [])
      | None \<Rightarrow>
          (case readMetadata lc actionID f of
             Inl e \<Rightarrow>
               (None,
                [Warn ''local cache file exists but metadata is missing/corrupted''
                   (EncodeToStringHex actionID) e])
           | Inr meta \<Rightarrow> (Some meta, [])))"

section \<open>The disk backend (backends.Disk)\<close>

record Disk =
  baseDir :: string

definition Disk_actionIDToPath :: "Disk \<Rightarrow> string \<Rightarrow> string" where
  "Disk_actionIDToPath d actionID = Join (baseDir d) (EncodeToStringHex actionID)"

definition Disk_metadataPath :: "Disk \<Rightarrow> string \<Rightarrow> string" where
  "Disk_metadataPath d actionID = Join (baseDir d) (EncodeToStringHex actionID @ ''.meta'')"

text \<open>
  \<^verbatim>\<open>Disk.Put\<close>; \<open>now\<close> is \<^verbatim>\<open>time.Now().Unix()\<close>. \<^verbatim>\<open>io.Copy\<close> reads the reader to
  its end. The text the operating system adds to an error message is left out.
\<close>

definition Disk_Put ::
  "Disk \<Rightarrow> int \<Rightarrow> string \<Rightarrow> string \<Rightarrow> string option \<Rightarrow> int \<Rightarrow> fs
     \<Rightarrow> (string \<times> string option \<times> string option) \<times> fs" where
  "Disk_Put d now actionID outputID body bodySize f =
     (let diskPath = Disk_actionIDToPath d actionID;
          metaPath = Disk_metadataPath d actionID
      in case WriteFile diskPath [] f of
           (Some e, f1) \<Rightarrow> (([], Some ''failed to create cache file'', body), f1)
         | (None, f1) \<Rightarrow>
             (let copy = (bodySize > 0 \<and> body \<noteq> None);
                  data = (if copy then the body else []);
                  f2 = (if copy then f1\<lparr>files := (files f1)(diskPath \<mapsto> File data)\<rparr> else f1);
                  body' = (if copy then Some [] else body)
              in if copy \<and> int (length data) \<noteq> bodySize
                 then (([], Some (''size mismatch: expected '' @ FormatInt bodySize @ '', wrote ''
                                   @ FormatInt (int (length data))), body'),
                       Remove diskPath f2)
                 else (case WriteFile metaPath (format_metadata outputID bodySize now) f2 of
                         (Some e, f3) \<Rightarrow>
                           (([], Some ''failed to write metadata'', body'), Remove diskPath f3)
                       | (None, f3) \<Rightarrow>
                           (((case Abs f3 diskPath of None \<Rightarrow> diskPath | Some p \<Rightarrow> p),
                             None, body'), f3))))"

definition Disk_Get ::
  "Disk \<Rightarrow> string \<Rightarrow> fs
     \<Rightarrow> ((string \<times> string \<times> int \<times> int option \<times> bool) \<times> string option) \<times> fs" where
  "Disk_Get d actionID f =
     (let diskPath = Disk_actionIDToPath d actionID;
          metaPath = Disk_metadataPath d actionID
      in if Stat f diskPath = Some NotExist then ((([], [], 0, None, True), None), f)
         else (case ReadFile f metaPath of
                 Inl e \<Rightarrow> ((([], [], 0, None, True), None), f)
               | Inr metaData \<Rightarrow>
                   (case scan_metadata metaData of
                      (outputIDHex, sz, putTimeUnix) \<Rightarrow>
                        (case DecodeStringHex outputIDHex of
                           None \<Rightarrow> ((([], [], 0, None, True), None), f)
                         | Some outputID \<Rightarrow>
                             (((outputID,
                                (case Abs f diskPath of None \<Rightarrow> diskPath | Some p \<Rightarrow> p),
                                sz, Some putTimeUnix, False), None), f)))))"

definition Disk_Close :: "fs \<Rightarrow> string option \<times> fs" where
  "Disk_Close f = (None, f)"

definition Disk_backend :: "Disk \<Rightarrow> int \<Rightarrow> fs Backend" where
  "Disk_backend d now = \<lparr>Put = Disk_Put d now, Get = Disk_Get d, Close = Disk_Close\<rparr>"

section \<open>The cross-process lock: dedupe/fslock.go\<close>

text \<open>
  \<^verbatim>\<open>FSLockGroup.Do\<close> asks the lock library (gofrs/flock, a dependency of the
  repository) for the lock with \<^verbatim>\<open>TryLockContext(ctx, 10ms)\<close> under a context that
  expires after one second. The library probes the lock, sleeps for the retry delay and
  probes again; it stops at the first probe that takes the lock or fails, and when the
  context is done it returns \<^verbatim>\<open>(false, ctx.Err())\<close>. Real time is abstracted to the list
  of probe results seen before the deadline; the list running out is the deadline.
\<close>

datatype probe = Locked | Busy | Failed string

definition DeadlineExceeded :: string where
  "DeadlineExceeded = ''context deadline exceeded''"

fun TryLockContext :: "probe list \<Rightarrow> bool \<times> string option" where
  "TryLockContext [] = (False, Some DeadlineExceeded)"
| "TryLockContext (Locked # ps) = (True, None)"
| "TryLockContext (Failed e # ps) = (False, Some e)"
| "TryLockContext (Busy # ps) = TryLockContext ps"

text \<open>
  The body of \<^verbatim>\<open>Do\<close> after the call of the library: the two early returns and the call
  of \<^verbatim>\<open>fn\<close>, which runs on the state \<open>s\<close> of whatever it guards. The result is
  \<^verbatim>\<open>(v, err, shared)\<close>; a nil \<^verbatim>\<open>v\<close> is \<open>None\<close>.
\<close>

definition Do_locked ::
  "bool \<times> string option \<Rightarrow> ('s \<Rightarrow> ('v option \<times> string option) \<times> 's) \<Rightarrow> 's
    \<Rightarrow> ('v option \<times> string option \<times> bool) \<times> 's" where
  "Do_locked r fn s =
     (case snd r of
        Some e \<Rightarrow> ((None, Some (''failed to acquire lock: '' @ e), False), s)
      | None \<Rightarrow>
          if \<not> fst r then ((None, Some ''failed to acquire lock: timeout'', False), s)
          else (case fn s of ((v, err), s') \<Rightarrow> ((v, err, False), s')))"

definition FSLockGroup_Do ::
  "probe list \<Rightarrow> ('s \<Rightarrow> ('v option \<times> string option) \<times> 's) \<Rightarrow> 's
    \<Rightarrow> ('v option \<times> string option \<times> bool) \<times> 's" where
  "FSLockGroup_Do probes fn s = Do_locked (TryLockContext probes) fn s"

section \<open>Notions used in the statements\<close>

text \<open>
  The characters of base64 text; the JSON string literal of such a text (nothing in it
  needs an escape); lines that \<^verbatim>\<open>readLine\<close> skips; lines joined with their newlines.
\<close>

definition plain_char :: "char \<Rightarrow> bool" where
  "plain_char c = (b64_val c \<noteq> None \<or> c = CHR ''='')"

definition quoted :: "string \<Rightarrow> string" where
  "quoted s = CHR 0x22 # s @ [CHR 0x22]"

definition blank_lines :: "string list \<Rightarrow> bool" where
  "blank_lines ls = list_all (\<lambda>l. newline \<notin> set l \<and> TrimSpace l = []) ls"

definition unlines :: "string list \<Rightarrow> string" where
  "unlines ls = concat (map (\<lambda>l. l @ [newline]) ls)"

text \<open>The store request of the specification's second scenario, and a decoder that knows
  this one line.\<close>

definition scenario_put :: string where
  \<open>scenario_put = ''{"ID":2,"Command":"put","ActionID":"AAAA","OutputID":"BBBB","BodySize":5}''\<close>

definition scenario_request :: Request where
  "scenario_request =
     \<lparr>ReqID = 2, Command = ''put'', ActionID = [CHR 0x00, CHR 0x00, CHR 0x00],
      ReqOutputID = [CHR 0x04, CHR 0x10, CHR 0x41], Body = None, BodySize = 5\<rparr>"

definition scenario_unmarshal :: "string \<Rightarrow> Request option" where
  "scenario_unmarshal l = (if l = scenario_put then Some scenario_request else None)"

text \<open>The first line of standard output, as the code writes it.\<close>

definition initial_line :: string where
  \<open>initial_line = ''{"KnownCommands":["put","get","close"]}\<newline>''\<close>

text \<open>The bytes on standard output when \<^verbatim>\<open>Run\<close> has returned, and the lines of a list
  of responses.\<close>

definition bytes_out ::
  "run_error option \<times> (Request \<times> Response) list \<times> stdin \<times> stdout \<times> 'b CacheProg \<Rightarrow> string" where
  "bytes_out res = written (fst (snd (snd (snd res))))"


text \<open>A request with a command the broker does not know, a decoder that knows this one
  line, a backend that does nothing, and a broker that has handled nothing yet.\<close>

definition nop_line :: string where
  \<open>nop_line = ''{"ID":7,"Command":"nop"}''\<close>

definition nop_request :: Request where
  "nop_request =
     \<lparr>ReqID = 7, Command = ''nop'', ActionID = [], ReqOutputID = [], Body = None, BodySize = 0\<rparr>"

definition nop_unmarshal :: "string \<Rightarrow> Request option" where
  "nop_unmarshal l = (if l = nop_line then Some nop_request else None)"

definition idle_backend :: "unit Backend" where
  "idle_backend =
     \<lparr>Put = (\<lambda>actionID outputID body bodySize s. (([], None, body), s)),
      Get = (\<lambda>actionID s. ((([], [], 0, None, True), None), s)),
      Close = (\<lambda>s. (None, s))\<rparr>"

definition fresh_CacheProg :: "'b \<Rightarrow> 'b CacheProg" where
  "fresh_CacheProg s =
     \<lparr>backend = s, debug = False, seenActionIDs = Map.empty, duplicateGets = 0,
      duplicatePuts = 0, putCount = 0, getCount = 0, hitCount = 0, deduplicatedGets = 0,
      deduplicatedPuts = 0, retriedRequests = 0, totalRetries = 0\<rparr>"

text \<open>The events of a retry loop that starts at \<open>attempt\<close> and makes the given attempts: a
  sleep of \<open>backoff\<close> between one attempt and the next.\<close>

fun with_backoff :: "int \<Rightarrow> (Response \<times> string option) list \<Rightarrow> retry_event list" where
  "with_backoff attempt [] = []"
| "with_backoff attempt [x] = [Attempt (fst x) (snd x)]"
| "with_backoff attempt (x # y # ys) =
     Attempt (fst x) (snd x) # Sleep (backoff attempt) # with_backoff (attempt + 1) (y # ys)"

text \<open>The statistics after a failed attempt that is retried.\<close>

definition count_retry :: "int \<Rightarrow> 'b CacheProg \<Rightarrow> 'b CacheProg" where
  "count_retry attempt cp =
     (if attempt = 0 then cp\<lparr>retriedRequests := retriedRequests cp + 1\<rparr> else cp)
       \<lparr>totalRetries := totalRetries (if attempt = 0 then cp\<lparr>retriedRequests := retriedRequests cp + 1\<rparr> else cp) + 1\<rparr>"

text \<open>The attempts and the sleeps among the events, and the events of
  \<^verbatim>\<open>HandleRequestWithRetries\<close>.\<close>

fun attempts :: "retry_event list \<Rightarrow> (Response \<times> string option) list" where
  "attempts [] = []"
| "attempts (Attempt resp err # evs) = (resp, err) # attempts evs"
| "attempts (Sleep d # evs) = attempts evs"

fun sleeps :: "retry_event list \<Rightarrow> 64 word list" where
  "sleeps [] = []"
| "sleeps (Attempt resp err # evs) = sleeps evs"
| "sleeps (Sleep d # evs) = d # sleeps evs"

definition retry_events :: "'b Backend \<Rightarrow> int \<Rightarrow> Request \<Rightarrow> 'b CacheProg \<Rightarrow> retry_event list" where
  "retry_events b maxRetries req cp =
     snd (fst (retry_loop b maxRetries 0 (zero_Response, None) req cp))"

definition hex_char :: "char \<Rightarrow> bool" where
  "hex_char c = (hex_val c \<noteq> None)"


definition cache0 :: LocalCache where
  "cache0 = \<lparr>cacheDir = ''/c''\<rparr>"


definition entry_aa :: fs where
  "entry_aa =
     \<lparr>files = [''/c/aa'' \<mapsto> File ''xyz'',
               ''/c/aa.meta'' \<mapsto> File ''outputID:ab\<newline>size:3\<newline>time:5\<newline>''],
      cwd = None\<rparr>"

definition outputID_only :: fs where
  "outputID_only =
     \<lparr>files = [''/c/aa'' \<mapsto> File ''xyz'', ''/c/aa.meta'' \<mapsto> File ''outputID:ab\<newline>''],
      cwd = None\<rparr>"

definition stale_aa :: fs where
  "stale_aa = entry_aa\<lparr>files := (files entry_aa)(''/c/aa.meta.tmp'' \<mapsto> Dir)\<rparr>"

definition stale_aa_after :: fs where
  "stale_aa_after =
     \<lparr>files = [''/c/aa'' \<mapsto> File ''hello'',
               ''/c/aa.meta'' \<mapsto> File ''outputID:ab\<newline>size:3\<newline>time:5\<newline>'',
               ''/c/aa.meta.tmp'' \<mapsto> Dir],
      cwd = None\<rparr>"

definition zero_put_line :: string where
  \<open>zero_put_line = ''{"ID":3,"Command":"put","ActionID":"qg==","OutputID":"qw==","BodySize":0}''\<close>

definition zero_get_line :: string where
  \<open>zero_get_line = ''{"ID":4,"Command":"get","ActionID":"qg=="}''\<close>

definition zero_put :: Request where
  "zero_put =
     \<lparr>ReqID = 3, Command = ''put'', ActionID = [CHR 0xAA], ReqOutputID = [CHR 0xAB],
      Body = None, BodySize = 0\<rparr>"

definition zero_get :: Request where
  "zero_get =
     \<lparr>ReqID = 4, Command = ''get'', ActionID = [CHR 0xAA], ReqOutputID = [],
      Body = None, BodySize = 0\<rparr>"

definition zero_unmarshal :: "string \<Rightarrow> Request option" where
  "zero_unmarshal l =
     (if l = zero_put_line then Some zero_put else if l = zero_get_line then Some zero_get else None)"

definition disk0 :: Disk where
  "disk0 = \<lparr>baseDir = ''/c''\<rparr>"

definition empty_disk :: fs where
  "empty_disk = \<lparr>files = [''/c'' \<mapsto> Dir], cwd = None\<rparr>"

section \<open>The goroutines of Run\<close>

text \<open>
  \<^verbatim>\<open>Run\<close> with its goroutines. The main goroutine reads the requests; for each request
  but a close it starts a goroutine that calls \<^verbatim>\<open>HandleRequest\<close> and then
  \<^verbatim>\<open>SendResponse\<close>, and looks at \<^verbatim>\<open>errChan\<close> before it reads on. A state holds
  standard input and output, the shared \<^verbatim>\<open>CacheProg\<close>, the goroutines that have not
  returned (those the wait group counts), \<^verbatim>\<open>errChan\<close> (a channel of capacity 1) and the
  place the main goroutine is at. Two more fields record what has happened: the requests
  \<^verbatim>\<open>ReadRequest\<close> has returned, in order, and the calls of \<^verbatim>\<open>SendResponse\<close>, in order,
  each with the request it answers and its result.

  A step is one action of one goroutine: a call of \<^verbatim>\<open>ReadRequest\<close>, the look at
  \<^verbatim>\<open>errChan\<close>, a call of \<^verbatim>\<open>HandleRequest\<close> or a call of \<^verbatim>\<open>SendResponse\<close> (which
  writes under the writer's mutex). The steps of different goroutines interleave in any
  order; a call of the backend is taken as one step.
\<close>

datatype phase =
    Reading
  | AfterSpawn
  | Closing Request
  | WaitAll
  | WaitThenFail run_error
  | Finished "run_error option"

datatype goroutine = Spawned Request | Handled Request Response

record answer =
  question :: Request
  reply :: Response
  failure :: "send_error option"

record 'b run_state =
  inp :: stdin
  outp :: stdout
  prog :: "'b CacheProg"
  goroutines :: "goroutine multiset"
  errChan :: "send_error option"
  at :: phase
  requests :: "Request list"
  responses :: "answer list"

definition with_error :: "Response \<Rightarrow> string option \<Rightarrow> Response" where
  "with_error resp err = (case err of None \<Rightarrow> resp | Some e \<Rightarrow> resp\<lparr>Err := e\<rparr>)"

inductive step ::
  "(string \<Rightarrow> Request option) \<Rightarrow> (int \<Rightarrow> string option) \<Rightarrow> 'b Backend
     \<Rightarrow> 'b run_state \<Rightarrow> 'b run_state \<Rightarrow> bool"
  for unmarshal time_json b where
  read_request:
    "at s = Reading \<Longrightarrow> ReadRequest unmarshal (inp s) = (Inr req, r') \<Longrightarrow> Command req \<noteq> CmdClose \<Longrightarrow>
     step unmarshal time_json b s
       (s\<lparr>inp := r', goroutines := add_mset (Spawned req) (goroutines s), at := AfterSpawn,
          requests := requests s @ [req]\<rparr>)"
| read_close:
    "at s = Reading \<Longrightarrow> ReadRequest unmarshal (inp s) = (Inr req, r') \<Longrightarrow> Command req = CmdClose \<Longrightarrow>
     step unmarshal time_json b s
       (s\<lparr>inp := r', at := Closing req, requests := requests s @ [req]\<rparr>)"
| read_eof:
    "at s = Reading \<Longrightarrow> ReadRequest unmarshal (inp s) = (Inl EOF, r') \<Longrightarrow>
     step unmarshal time_json b s (s\<lparr>inp := r', at := WaitAll\<rparr>)"
| read_failed:
    "at s = Reading \<Longrightarrow> ReadRequest unmarshal (inp s) = (Inl e, r') \<Longrightarrow> e \<noteq> EOF \<Longrightarrow>
     step unmarshal time_json b s (s\<lparr>inp := r', at := WaitThenFail (ReadFailed e)\<rparr>)"
| no_error:
    "at s = AfterSpawn \<Longrightarrow> errChan s = None \<Longrightarrow>
     step unmarshal time_json b s (s\<lparr>at := Reading\<rparr>)"
| seen_error:
    "at s = AfterSpawn \<Longrightarrow> errChan s = Some e \<Longrightarrow>
     step unmarshal time_json b s (s\<lparr>errChan := None, at := WaitThenFail SendResponseFailed\<rparr>)"
| handle:
    "Spawned req \<in># goroutines s \<Longrightarrow> HandleRequest b req (prog s) = ((resp, err), req', cp') \<Longrightarrow>
     step unmarshal time_json b s
       (s\<lparr>prog := cp',
          goroutines := add_mset (Handled req (with_error resp err)) (goroutines s - {#Spawned req#})\<rparr>)"
| send:
    "Handled req resp \<in># goroutines s \<Longrightarrow> SendResponse time_json resp (outp s) = (res, w') \<Longrightarrow>
     step unmarshal time_json b s
       (s\<lparr>outp := w', goroutines := goroutines s - {#Handled req resp#},
          errChan := (if errChan s = None then res else errChan s),
          responses := responses s @ [\<lparr>question = req, reply = resp, failure = res\<rparr>]\<rparr>)"
| close_request:
    "at s = Closing req \<Longrightarrow> goroutines s = {#} \<Longrightarrow>
     HandleRequest b req (prog s) = ((resp, err), req', cp') \<Longrightarrow>
     SendResponse time_json (with_error resp err) (outp s) = (res, w') \<Longrightarrow>
     step unmarshal time_json b s
       (s\<lparr>outp := w', prog := cp',
          at := (if res = None then WaitAll else Finished (Some SendCloseResponseFailed)),
          responses :=
            responses s @ [\<lparr>question = req, reply = with_error resp err, failure = res\<rparr>]\<rparr>)"
| all_done:
    "at s = WaitAll \<Longrightarrow> goroutines s = {#} \<Longrightarrow>
     step unmarshal time_json b s (s\<lparr>at := Finished None\<rparr>)"
| late_error:
    "at s = WaitAll \<Longrightarrow> errChan s = Some e \<Longrightarrow>
     step unmarshal time_json b s (s\<lparr>errChan := None, at := WaitThenFail SendResponseFailed\<rparr>)"
| failed:
    "at s = WaitThenFail e \<Longrightarrow> goroutines s = {#} \<Longrightarrow>
     step unmarshal time_json b s (s\<lparr>at := Finished (Some e)\<rparr>)"

text \<open>The state in which the loop of \<^verbatim>\<open>Run\<close> starts, after the initial response; when
  that cannot be sent \<^verbatim>\<open>Run\<close> has returned.\<close>

definition Run_start ::
  "(int \<Rightarrow> string option) \<Rightarrow> stdin \<Rightarrow> stdout \<Rightarrow> 'b CacheProg \<Rightarrow> 'b run_state" where
  "Run_start time_json r w cp =
     (case SendInitialResponse time_json w of
        (e, w') \<Rightarrow>
          \<lparr>inp = r, outp = w', prog = cp, goroutines = {#}, errChan = None,
           at = (if e = None then Reading else Finished (Some InitialResponseFailed)),
           requests = [], responses = []\<rparr>)"

definition Run_reaches ::
  "(string \<Rightarrow> Request option) \<Rightarrow> (int \<Rightarrow> string option) \<Rightarrow> 'b Backend
     \<Rightarrow> stdin \<Rightarrow> stdout \<Rightarrow> 'b CacheProg \<Rightarrow> 'b run_state \<Rightarrow> bool" where
  "Run_reaches unmarshal time_json b r w cp s =
     rtranclp (step unmarshal time_json b) (Run_start time_json r w cp) s"

















section \<open>Properties of the cross-process lock\<close>

lemma TryLockContext_all_busy:
  "TryLockContext (replicate n Busy) = (False, Some DeadlineExceeded)"
  by (induction n) simp_all

lemma TryLockContext_never_silent:
  "TryLockContext ps = (False, e) \<Longrightarrow> e \<noteq> None"
  by (induction ps rule: TryLockContext.induct) auto

lemma Do_locked_not_shared: "snd (snd (fst (Do_locked r fn s))) = False"
  by (simp add: Do_locked_def split: option.split prod.split)

text \<open>
  C5. When the lock stays busy until the deadline, \<^verbatim>\<open>Do\<close> returns without running
  \<^verbatim>\<open>fn\<close> (the state is untouched) and with shared = false, but the error it returns
  wraps the context's error: the text is
  "failed to acquire lock: context deadline exceeded", not "failed to acquire lock: timeout".
\<close>

theorem FSLockGroup_Do_deadline:
  "FSLockGroup_Do (replicate n Busy) fn s =
     ((None, Some ''failed to acquire lock: context deadline exceeded'', False), s)"
  by (simp add: FSLockGroup_Do_def Do_locked_def TryLockContext_all_busy DeadlineExceeded_def)

section \<open>The framing of a body: base64 inside a JSON string\<close>


lemma b64_val_char: "n < 64 \<Longrightarrow> b64_val (b64_char n) = Some n"
  by (auto simp: b64_val_def b64_char_def Let_def)

lemma b64_val_pad: "b64_val (CHR ''='') = None"
  by (simp add: b64_val_def)

lemma plain_b64_char: "n < 64 \<Longrightarrow> plain_char (b64_char n)"
  by (simp add: plain_char_def b64_val_char)

lemma group_bound:
  "of_char x * 65536 + of_char y * 256 + (of_char z :: nat) < 16777216"
  "of_char x * 65536 + (of_char y :: nat) * 256 < 16777216"
  "(of_char x :: nat) * 65536 < 16777216"
proof -
  have "(of_char x :: nat) < 256" "(of_char y :: nat) < 256" "(of_char z :: nat) < 256"
    by simp_all
  then show "of_char x * 65536 + of_char y * 256 + (of_char z :: nat) < 16777216"
    "of_char x * 65536 + (of_char y :: nat) * 256 < 16777216"
    "(of_char x :: nat) * 65536 < 16777216"
    by linarith+
qed

lemma top_sextet: "(v :: nat) < 16777216 \<Longrightarrow> v div 262144 < 64"
  by (simp add: div_less_iff_less_mult)

lemma plain_pad: "plain_char (CHR ''='')"
  by (simp add: plain_char_def)

lemma plain_sextet: "plain_char (b64_char (n mod 64))"
  by (rule plain_b64_char) simp

lemma plain_Encode: "list_all plain_char (EncodeToString64 bs)"
proof (induction bs rule: EncodeToString64.induct)
  case (1 x y z bs)
  then show ?case
    using top_sextet[OF group_bound(1)[of x y z]]
    by (simp add: Let_def plain_b64_char plain_sextet)
next
  case (2 x y)
  then show ?case
    using top_sextet[OF group_bound(2)[of x y]]
    by (simp add: Let_def plain_b64_char plain_sextet plain_pad)
next
  case (3 x)
  then show ?case
    using top_sextet[OF group_bound(3)[of x]]
    by (simp add: Let_def plain_b64_char plain_sextet plain_pad)
next
  case 4
  then show ?case by simp
qed

lemma plain_char_range:
  "plain_char c \<Longrightarrow> 0x20 \<le> (of_char c :: nat) \<and> (of_char c :: nat) < 0x80
      \<and> c \<noteq> CHR 0x22 \<and> c \<noteq> CHR 0x5C \<and> c \<noteq> CHR 0x0D \<and> c \<noteq> CHR 0x0A"
  by (auto simp: plain_char_def b64_val_def Let_def split: if_splits)

lemma sextets_value:
  "(v::nat) div 262144 * 262144 + (v div 4096 mod 64) * 4096 + (v div 64 mod 64) * 64 + v mod 64 = v"
proof -
  have a: "v div 262144 = v div 4096 div 64" by (simp add: div_mult2_eq[symmetric])
  have b: "v div 4096 = v div 64 div 64" by (simp add: div_mult2_eq[symmetric])
  have "v = v div 64 * 64 + v mod 64" by simp
  moreover have "v div 64 = v div 64 div 64 * 64 + v div 64 mod 64" by simp
  moreover have "v div 64 div 64 = v div 64 div 64 div 64 * 64 + v div 64 div 64 mod 64" by simp
  ultimately show ?thesis unfolding a b by linarith
qed

lemma byte0: fixes x y z :: nat assumes "y < 256" "z < 256"
  shows "(x * 65536 + y * 256 + z) div 65536 = x"
  using assms by simp

lemma byte1: fixes x y z :: nat assumes "y < 256" "z < 256"
  shows "(x * 65536 + y * 256 + z) div 256 mod 256 = y"
proof -
  have eq: "x * 65536 + y * 256 + z = (x * 256 + y) * 256 + z" by simp
  have "((x * 256 + y) * 256 + z) div 256 = x * 256 + y"
    using assms(2) by (simp only: div_mult_self3 div_less)
  moreover have "(x * 256 + y) mod 256 = y"
    using assms(1) by (simp only: mod_mult_self3 mod_less)
  ultimately show ?thesis unfolding eq by (simp only:)
qed

lemma byte2: fixes x y z :: nat assumes "y < 256" "z < 256"
  shows "(x * 65536 + y * 256 + z) mod 256 = z"
proof -
  have eq: "x * 65536 + y * 256 + z = (x * 256 + y) * 256 + z" by simp
  show ?thesis unfolding eq using assms(2) by (simp only: mod_mult_self3 mod_less)
qed

lemma decode_full_quantum:
  assumes "va < 64" "vb < 64" "vc < 64" "vd < 64"
  shows "decode_quanta (b64_char va # b64_char vb # b64_char vc # b64_char vd # rest) =
     (case decode_quanta rest of
        None \<Rightarrow> None
      | Some bs \<Rightarrow>
          Some (char_of ((va * 262144 + vb * 4096 + vc * 64 + vd) div 65536)
                # char_of ((va * 262144 + vb * 4096 + vc * 64 + vd) div 256 mod 256)
                # char_of ((va * 262144 + vb * 4096 + vc * 64 + vd) mod 256) # bs))"
  using assms by (simp add: b64_val_char Let_def)

lemma decode_pad1_quantum:
  assumes "va < 64" "vb < 64" "vc < 64"
  shows "decode_quanta [b64_char va, b64_char vb, b64_char vc, CHR ''='']  =
          Some [char_of ((va * 262144 + vb * 4096 + vc * 64) div 65536),
                char_of ((va * 262144 + vb * 4096 + vc * 64) div 256 mod 256)]"
  using assms by (simp add: b64_val_char b64_val_pad Let_def)

lemma decode_pad2_quantum:
  assumes "va < 64" "vb < 64"
  shows "decode_quanta [b64_char va, b64_char vb, CHR ''='', CHR ''='']  =
          Some [char_of ((va * 262144 + vb * 4096) div 65536)]"
  using assms by (simp add: b64_val_char b64_val_pad Let_def)

lemma decode_encode: "decode_quanta (EncodeToString64 bs) = Some bs"
proof (induction bs rule: EncodeToString64.induct)
  case (1 x y z bs)
  define v where "v = of_char x * 65536 + of_char y * 256 + (of_char z :: nat)"
  have enc: "EncodeToString64 (x # y # z # bs) =
      b64_char (v div 262144) # b64_char (v div 4096 mod 64) # b64_char (v div 64 mod 64)
        # b64_char (v mod 64) # EncodeToString64 bs"
    unfolding v_def by (simp only: EncodeToString64.simps Let_def)
  have top: "v div 262144 < 64"
    unfolding v_def by (rule top_sextet[OF group_bound(1)])
  have b0: "v div 65536 = of_char x" unfolding v_def by (rule byte0) simp_all
  have b1: "v div 256 mod 256 = of_char y" unfolding v_def by (rule byte1) simp_all
  have b2: "v mod 256 = of_char z" unfolding v_def by (rule byte2) simp_all
  have "decode_quanta (EncodeToString64 (x # y # z # bs)) =
          Some (char_of (v div 65536) # char_of (v div 256 mod 256) # char_of (v mod 256) # bs)"
    unfolding enc
    by (subst decode_full_quantum) (simp_all only: top sextets_value "1.IH" option.case mod_less_divisor zero_less_numeral)
  then show ?case by (simp only: b0 b1 b2 char_of_char)
next
  case (2 x y)
  define v where "v = of_char x * 65536 + (of_char y :: nat) * 256"
  have enc: "EncodeToString64 [x, y] =
      [b64_char (v div 262144), b64_char (v div 4096 mod 64), b64_char (v div 64 mod 64), CHR ''='']"
    unfolding v_def by (simp only: EncodeToString64.simps Let_def)
  have top: "v div 262144 < 64"
    unfolding v_def by (rule top_sextet[OF group_bound(2)])
  have low: "v mod 64 = 0" unfolding v_def by simp
  have val: "v div 262144 * 262144 + (v div 4096 mod 64) * 4096 + (v div 64 mod 64) * 64 = v"
    using sextets_value[of v] low by simp
  have b0: "v div 65536 = of_char x" using byte0[of "of_char y" 0 "of_char x"] by (simp add: v_def)
  have b1: "v div 256 mod 256 = of_char y" using byte1[of "of_char y" 0 "of_char x"] by (simp add: v_def)
  have "decode_quanta (EncodeToString64 [x, y]) = Some [char_of (v div 65536), char_of (v div 256 mod 256)]"
    unfolding enc
    by (subst decode_pad1_quantum) (simp_all only: top val mod_less_divisor zero_less_numeral)
  then show ?case by (simp only: b0 b1 char_of_char)
next
  case (3 x)
  define v where "v = (of_char x :: nat) * 65536"
  have enc: "EncodeToString64 [x] =
      [b64_char (v div 262144), b64_char (v div 4096 mod 64), CHR ''='', CHR ''='']"
    unfolding v_def by (simp only: EncodeToString64.simps Let_def)
  have top: "v div 262144 < 64"
    unfolding v_def by (rule top_sextet[OF group_bound(3)])
  have low: "v mod 64 = 0" "v div 64 mod 64 = 0" unfolding v_def by simp_all
  have val: "v div 262144 * 262144 + (v div 4096 mod 64) * 4096 = v"
    using sextets_value[of v] low by simp
  have b0: "v div 65536 = of_char x" by (simp add: v_def)
  have "decode_quanta (EncodeToString64 [x]) = Some [char_of (v div 65536)]"
    unfolding enc
    by (subst decode_pad2_quantum) (simp_all only: top val mod_less_divisor zero_less_numeral)
  then show ?case by (simp only: b0 char_of_char)
next
  case 4
  show ?case by simp
qed

lemma filter_plain:
  "list_all plain_char s \<Longrightarrow> filter (\<lambda>c. c \<noteq> CHR 0x0D \<and> c \<noteq> CHR 0x0A) s = s"
  by (induction s) (auto dest: plain_char_range)

lemma Decode_Encode: "DecodeString64 (EncodeToString64 bs) = Some bs"
  by (simp add: DecodeString64_def filter_plain[OF plain_Encode] decode_encode)


lemma unquote_plain:
  "list_all plain_char s \<Longrightarrow> unquote (s @ CHR 0x22 # rest) = Some (s, rest)"
proof (induction s)
  case Nil
  show ?case by simp
next
  case (Cons c s)
  then have ih: "unquote (s @ CHR 0x22 # rest) = Some (s, rest)" by simp
  from Cons.prems have "plain_char c" by simp
  from plain_char_range[OF this] show ?case
    by (simp add: ih emit_def)
qed

lemma Unmarshal_string_quoted:
  assumes "list_all plain_char s"
  shows "Unmarshal_string (quoted s) = Some s"
  using unquote_plain[OF assms, of "[]"]
  by (simp add: Unmarshal_string_def quoted_def json_space_def)

lemma space_width_0:
  "c \<notin> set (map hd space_encodings) \<Longrightarrow> space_width (c # s) = 0"
  by (simp add: space_width_def space_encodings_def HasPrefix_def)

lemma HasSuffix_last:
  "HasSuffix s e \<Longrightarrow> e \<noteq> [] \<Longrightarrow> last s = last e"
  by (metis HasSuffix_def append_take_drop_id last_appendR)

lemma space_width_end_0:
  assumes "last s \<notin> set (map last space_encodings)"
  shows "space_width_end s = 0"
proof -
  have "\<not> HasSuffix s e" if "e \<in> set space_encodings" for e
  proof
    assume h: "HasSuffix s e"
    from that have "e \<noteq> []" by (auto simp: space_encodings_def)
    from HasSuffix_last[OF h this] that assms show False by auto
  qed
  then have "find (HasSuffix s) space_encodings = None"
    by (simp add: find_None_iff)
  then show ?thesis by (simp add: space_width_end_def)
qed

lemma TrimSpace_quoted: "TrimSpace (quoted s) = quoted s"
proof -
  have l: "trim_left (quoted s) = quoted s"
    by (subst trim_left.simps) (simp add: quoted_def space_width_0 space_encodings_def)
  have "space_width_end (quoted s) = 0"
    by (rule space_width_end_0) (simp add: quoted_def space_encodings_def)
  then have r: "trim_right (quoted s) = quoted s"
    by (subst trim_right.simps) simp
  show ?thesis by (simp add: TrimSpace_def l r)
qed

lemma newline_quoted: "list_all plain_char s \<Longrightarrow> newline \<notin> set (quoted s)"
  by (auto simp: quoted_def newline_def list_all_iff dest: plain_char_range)

lemma ReadBytes_line:
  "newline \<notin> set l \<Longrightarrow>
   ReadBytes \<lparr>pending = l @ newline # s, broken = br\<rparr> =
     (Some (l @ [newline]), \<lparr>pending = s, broken = br\<rparr>)"
proof -
  assume n: "newline \<notin> set l"
  then have t: "takeWhile (\<lambda>c. c \<noteq> newline) (l @ newline # s) = l"
    by (induction l) auto
  from n have d: "dropWhile (\<lambda>c. c \<noteq> newline) (l @ newline # s) = newline # s"
    by (induction l) auto
  show ?thesis by (simp add: ReadBytes_def t d)
qed

lemma readLine_line:
  "newline \<notin> set l \<Longrightarrow> TrimSpace l \<noteq> [] \<Longrightarrow>
   readLine \<lparr>pending = l @ newline # s, broken = br\<rparr> = (Inr l, \<lparr>pending = s, broken = br\<rparr>)"
  by (subst readLine.simps) (simp add: ReadBytes_line)

lemma readLine_blank:
  "newline \<notin> set l \<Longrightarrow> TrimSpace l = [] \<Longrightarrow>
   readLine \<lparr>pending = l @ newline # s, broken = br\<rparr> = readLine \<lparr>pending = s, broken = br\<rparr>"
  by (subst readLine.simps) (simp add: ReadBytes_line)

lemma readLine_blanks:
  "blank_lines ls \<Longrightarrow>
   readLine \<lparr>pending = unlines ls @ s, broken = br\<rparr> = readLine \<lparr>pending = s, broken = br\<rparr>"
  by (induction ls) (simp_all add: blank_lines_def unlines_def readLine_blank)


text \<open>
  C3. A put request with \<^verbatim>\<open>BodySize > 0\<close> whose next non-empty line is the JSON string
  literal of the base64 encoding of \<open>body\<close>: \<^verbatim>\<open>ReadRequest\<close> returns the request with
  a reader over exactly \<open>body\<close>, for every byte sequence \<open>body\<close>, and has consumed the
  input up to the end of the body line. Blank lines before the request and between the
  request and the body are skipped.
\<close>

theorem ReadRequest_body_round_trip:
  assumes "unmarshal line = Some req" and "Command req = CmdPut" and "0 < BodySize req"
    and "newline \<notin> set line" and "TrimSpace line \<noteq> []"
    and "blank_lines pre" and "blank_lines mid"
  shows "ReadRequest unmarshal
           \<lparr>pending = unlines pre @ line @ newline # unlines mid
                        @ quoted (EncodeToString64 body) @ newline # rest,
            broken = br\<rparr>
         = (Inr (req\<lparr>Body := Some body\<rparr>), \<lparr>pending = rest, broken = br\<rparr>)"
proof -
  let ?b = "quoted (EncodeToString64 body)"
  have first: "readLine \<lparr>pending = unlines pre @ line @ newline # unlines mid @ ?b @ newline # rest,
                          broken = br\<rparr>
        = (Inr line, \<lparr>pending = unlines mid @ ?b @ newline # rest, broken = br\<rparr>)"
    by (simp only: readLine_blanks[OF assms(6)] readLine_line[OF assms(4,5)])
  have nq: "newline \<notin> set ?b" by (rule newline_quoted[OF plain_Encode])
  have tq: "TrimSpace ?b \<noteq> []" by (simp add: TrimSpace_quoted) (simp add: quoted_def)
  have second: "readLine \<lparr>pending = unlines mid @ ?b @ newline # rest, broken = br\<rparr>
        = (Inr ?b, \<lparr>pending = rest, broken = br\<rparr>)"
    by (simp only: readLine_blanks[OF assms(7)] readLine_line[OF nq tq])
  show ?thesis
    unfolding ReadRequest_def first
    by (simp add: second assms(1,2,3) Unmarshal_string_quoted[OF plain_Encode] Decode_Encode)
qed

lemmas space_eval = TrimSpace_def trim_left.simps trim_right.simps space_width_def
  space_width_end_def space_encodings_def HasPrefix_def HasSuffix_def

theorem ReadRequest_body_round_trip_witness:
  \<open>ReadRequest scenario_unmarshal
     \<lparr>pending = scenario_put @ ''\<newline>  \<newline>"aGVsbG8="\<newline>{"ID":3}'', broken = False\<rparr>
   = (Inr (scenario_request\<lparr>Body := Some ''hello''\<rparr>), \<lparr>pending = ''{"ID":3}'', broken = False\<rparr>)\<close>
proof -
  have e: "EncodeToString64 ''hello'' = ''aGVsbG8=''"
    by (simp add: b64_char_def Let_def char_of_eq_iff)
  have t: "TrimSpace scenario_put \<noteq> []"
    by (simp add: space_eval scenario_put_def)
  have n: "newline \<notin> set scenario_put"
    by (simp add: scenario_put_def newline_def)
  have "TrimSpace ''  '' = []" by (simp add: space_eval)
  then have b: "blank_lines [''  '']"
    by (simp add: blank_lines_def newline_def)
  have u: "scenario_unmarshal scenario_put = Some scenario_request"
    by (simp add: scenario_unmarshal_def)
  have c: "Command scenario_request = CmdPut" "0 < BodySize scenario_request"
    by (simp_all add: scenario_request_def CmdPut_def)
  have bl: "blank_lines []" by (simp add: blank_lines_def)
  have "unlines [] @ scenario_put @ newline # unlines [''  ''] @ quoted (EncodeToString64 ''hello'') @ newline # ''{\"ID\":3}''
      = scenario_put @ ''\<newline>  \<newline>\"aGVsbG8=\"\<newline>{\"ID\":3}''"
    unfolding e by (simp add: unlines_def quoted_def newline_def)
  with ReadRequest_body_round_trip[of scenario_unmarshal scenario_put scenario_request
         "[]" "[''  '']" "''hello''" \<open>''{"ID":3}''\<close> False, OF u c n t bl b]
  show ?thesis by (simp only:)
qed

section \<open>The handshake and the responses of a run\<close>

lemma json_chars_put: "json_chars ''put'' = ''put''" "json_chars ''get'' = ''get''" "json_chars ''close'' = ''close''"
  "json_chars ''KnownCommands'' = ''KnownCommands''"
  by (simp_all add: escape_ascii_def Let_def)

lemma Marshal_initial:
  \<open>Marshal time_json (zero_Response\<lparr>ID := 0, KnownCommands := [CmdPut, CmdGet, CmdClose]\<rparr>)
     = Some ''{"KnownCommands":["put","get","close"]}''\<close>
  by (simp add: Marshal_def zero_Response_def CmdPut_def CmdGet_def CmdClose_def json_field_def
        json_string_def escape_ascii_def Let_def)

lemma SendInitialResponse_open:
  "SendInitialResponse time_json \<lparr>written = out, closed = False\<rparr>
     = (None, \<lparr>written = out @ initial_line, closed = False\<rparr>)"
  by (simp add: SendInitialResponse_def SendResponse_def Marshal_initial initial_line_def newline_def)

lemma SendResponse_appends:
  "SendResponse time_json resp w = (e, w') \<Longrightarrow> \<exists>rest. written w' = written w @ rest \<and> closed w' = closed w"
  by (auto simp: SendResponse_def split: option.splits if_splits)

lemma Run_loop_appends:
  "Run_loop unmarshal time_json b r w cp = (e, xs, r', w', cp') \<Longrightarrow>
     \<exists>rest. written w' = written w @ rest"
proof (induction unmarshal time_json b r w cp arbitrary: e xs r' w' cp' rule: Run_loop.induct)
  case (1 unmarshal time_json b r w cp)
  show ?case
  proof (cases "ReadRequest unmarshal r")
    case (Pair res r1)
    show ?thesis
    proof (cases res)
      case (Inl a)
      with Pair 1(2) show ?thesis by (subst (asm) Run_loop.simps) auto
    next
      case (Inr req)
      obtain resp err req1 cp1 where h: "HandleRequest b req cp = ((resp, err), req1, cp1)"
        by (cases "HandleRequest b req cp") auto
      define resp' where "resp' = (case err of Some e \<Rightarrow> resp\<lparr>Err := e\<rparr> | None \<Rightarrow> resp)"
      obtain se w1 where sr: "SendResponse time_json resp' w = (se, w1)" by (cases "SendResponse time_json resp' w")
      from SendResponse_appends[OF sr] obtain rest1 where w1: "written w1 = written w @ rest1" by blast
      show ?thesis
      proof (cases "se = None \<and> Command req \<noteq> CmdClose")
        case False
        with 1(2) Pair Inr h sr w1 show ?thesis
          by (subst (asm) Run_loop.simps) (auto simp: resp'_def Let_def split: option.splits if_splits)
      next
        case True
        obtain e2 xs2 r2 w2 cp2 where rl: "Run_loop unmarshal time_json b r1 w1 cp1 = (e2, xs2, r2, w2, cp2)"
          by (cases "Run_loop unmarshal time_json b r1 w1 cp1") auto
        from True sr have sr': "SendResponse time_json resp' w = (None, w1)" by simp
        from True have nc: "Command req \<noteq> CmdClose" by simp
        have "\<exists>rest. written w2 = written w1 @ rest"
          by (rule 1(1)[OF Pair[symmetric] Inr h[symmetric] refl refl resp'_def sr'[symmetric] refl nc rl])
        moreover from 1(2) Pair Inr h sr' rl True have "w' = w2"
          by (subst (asm) Run_loop.simps) (simp add: resp'_def)
        ultimately show ?thesis using w1 by auto
      qed
    qed
  qed
qed


text \<open>
  C1 (as amended). The first thing \<^verbatim>\<open>Run\<close> does is to send the initial response; on an
  open standard output it is the line \<^verbatim>\<open>{"KnownCommands":["put","get","close"]}\<close> and
  one newline: with the tag omitempty an ID of 0 is left out. Every run's output starts
  with this line, and the run on an empty input writes this line and nothing else.
\<close>

theorem initial_response_line:
  "SendInitialResponse time_json \<lparr>written = out, closed = False\<rparr>
       = (None, \<lparr>written = out @ initial_line, closed = False\<rparr>) \<and>
   (\<exists>rest. bytes_out (Run unmarshal time_json b r \<lparr>written = [], closed = False\<rparr> cp) = initial_line @ rest) \<and>
   Run unmarshal time_json b \<lparr>pending = [], broken = False\<rparr> \<lparr>written = [], closed = False\<rparr> cp
       = (None, [], \<lparr>pending = [], broken = False\<rparr>, \<lparr>written = initial_line, closed = False\<rparr>, cp)"
proof (intro conjI)
  show "SendInitialResponse time_json \<lparr>written = out, closed = False\<rparr>
       = (None, \<lparr>written = out @ initial_line, closed = False\<rparr>)"
    by (rule SendInitialResponse_open)
next
  obtain e xs r' w' cp' where
     rl: "Run_loop unmarshal time_json b r \<lparr>written = initial_line, closed = False\<rparr> cp = (e, xs, r', w', cp')"
    by (cases "Run_loop unmarshal time_json b r \<lparr>written = initial_line, closed = False\<rparr> cp") auto
  from Run_loop_appends[OF rl]
  show "\<exists>rest. bytes_out (Run unmarshal time_json b r \<lparr>written = [], closed = False\<rparr> cp) = initial_line @ rest"
    using SendInitialResponse_open[of time_json "[]"]
    by (simp add: Run_def bytes_out_def rl)
next
  have "readLine \<lparr>pending = [], broken = False\<rparr> = (Inl io_EOF, \<lparr>pending = [], broken = False\<rparr>)"
    by (subst readLine.simps) (simp add: ReadBytes_def)
  then have "ReadRequest unmarshal \<lparr>pending = [], broken = False\<rparr> = (Inl EOF, \<lparr>pending = [], broken = False\<rparr>)"
    by (simp add: ReadRequest_def)
  then show "Run unmarshal time_json b \<lparr>pending = [], broken = False\<rparr> \<lparr>written = [], closed = False\<rparr> cp
       = (None, [], \<lparr>pending = [], broken = False\<rparr>, \<lparr>written = initial_line, closed = False\<rparr>, cp)"
    using SendInitialResponse_open[of time_json "[]"]
    by (simp add: Run_def Run_loop.simps[of unmarshal time_json b "\<lparr>pending = [], broken = False\<rparr>"])
qed

text \<open>The line is not the one with \<^verbatim>\<open>"ID":0\<close>.\<close>

theorem initial_response_has_no_ID:
  \<open>SendInitialResponse (\<lambda>t. None) \<lparr>written = [], closed = False\<rparr>
     \<noteq> (None, \<lparr>written = ''{"ID":0,"KnownCommands":["put","get","close"]}\<newline>'', closed = False\<rparr>)\<close>
  by (simp add: SendInitialResponse_open initial_line_def)

section \<open>The retry wrapper\<close>

lemma HandleRequest_Command:
  "HandleRequest b req cp = (x, req', cp') \<Longrightarrow> Command req' = Command req"
  by (auto simp: HandleRequest_def Let_def sfGroup_Do_def split: if_splits prod.splits option.splits)

lemma with_backoff_Cons:
  "xs \<noteq> [] \<Longrightarrow> with_backoff a (x # xs) = Attempt (fst x) (snd x) # Sleep (backoff a) # with_backoff (a + 1) xs"
  by (cases xs) simp_all

lemma retry_loop_stop:
  assumes "a \<le> m" and "HandleRequest b req cp = ((resp, err), req1, cp1)"
    and "err = None \<or> Command req = CmdClose \<or> m \<le> a"
  shows "retry_loop b m a cur req cp = (((resp, err), [Attempt resp err]), req1, cp1)"
  using assms by (subst retry_loop.simps) auto

lemma retry_loop_retry:
  assumes "a < m" and "HandleRequest b req cp = ((resp, err), req1, cp1)"
    and "err \<noteq> None" and "Command req \<noteq> CmdClose"
  shows "retry_loop b m a cur req cp =
     (case retry_loop b m (a + 1) (resp, err) req1 (count_retry a cp1) of
        ((res, evs), req', cp') \<Rightarrow> ((res, Attempt resp err # Sleep (backoff a) # evs), req', cp'))"
  using assms by (subst retry_loop.simps) (auto simp: Let_def count_retry_def)

lemma retry_loop_skip:
  "\<not> a \<le> m \<Longrightarrow> retry_loop b m a cur req cp = ((cur, []), req, cp)"
  by (subst retry_loop.simps) simp

lemma retry_loop_trace:
  "retry_loop b m a cur req cp = ((res, evs), req', cp') \<Longrightarrow> a \<le> m \<Longrightarrow>
     \<exists>xs. xs \<noteq> [] \<and> evs = with_backoff a xs \<and> int (length xs) \<le> m + 1 - a \<and> res = last xs
        \<and> (\<forall>x \<in> set (butlast xs). snd x \<noteq> None) \<and> (Command req = CmdClose \<longrightarrow> length xs = 1)"
proof (induction b m a cur req cp arbitrary: res evs req' cp' rule: retry_loop.induct)
  case (1 b m a cur req cp)
  obtain resp err req1 cp1 where h: "HandleRequest b req cp = ((resp, err), req1, cp1)"
    by (cases "HandleRequest b req cp") auto
  show ?case
  proof (cases "err = None \<or> Command req = CmdClose \<or> m \<le> a")
    case True
    from retry_loop_stop[OF 1(3) h True, of cur] 1(2)
    have "res = (resp, err)" "evs = [Attempt resp err]" by simp_all
    then show ?thesis using 1(3)
      by (intro exI[of _ "[(resp, err)]"]) simp
  next
    case False
    then have c: "a < m" "err \<noteq> None" "Command req \<noteq> CmdClose" by auto
    define cp2 where "cp2 = (if a = 0 then cp1\<lparr>retriedRequests := retriedRequests cp1 + 1\<rparr> else cp1)"
    define cp3 where "cp3 = cp2\<lparr>totalRetries := totalRetries cp2 + 1\<rparr>"
    have cp3: "cp3 = count_retry a cp1" by (simp add: cp3_def cp2_def count_retry_def)
    obtain res2 evs2 req2 cp4 where
      rl: "retry_loop b m (a + 1) (resp, err) req1 cp3 = ((res2, evs2), req2, cp4)"
      by (cases "retry_loop b m (a + 1) (resp, err) req1 cp3") auto
    from c have lt: "a + 1 \<le> m" by simp
    from c have c1: "\<not> (err = None \<or> Command req = CmdClose)" and c2: "\<not> m \<le> a" by auto
    note ih = 1(1)[OF 1(3) h[symmetric] refl refl c1 c2 cp2_def cp3_def refl rl lt]
    then obtain xs where xs: "xs \<noteq> []" "evs2 = with_backoff (a + 1) xs"
       "int (length xs) \<le> m + 1 - (a + 1)" "res2 = last xs" "\<forall>x\<in>set (butlast xs). snd x \<noteq> None"
      by blast
    from retry_loop_retry[OF c(1) h c(2,3), of cur] rl 1(2)
    have r: "res = res2" "evs = Attempt resp err # Sleep (backoff a) # evs2"
      by (simp_all add: cp3)
    show ?thesis
      using xs r c
      by (intro exI[of _ "(resp, err) # xs"]) (auto simp: with_backoff_Cons)
  qed
qed

lemma backoff_word: "backoff k = word_of_int (10000000 * 2 ^ nat k)"
  by (simp add: backoff_def baseDelay_def push_bit_eq_mult)

lemma backoff_small:
  assumes "0 \<le> k" and "k < 40"
  shows "sint (backoff k) = 10000000 * 2 ^ nat k"
proof -
  have "(2::int) ^ nat k \<le> 2 ^ 39"
    using assms by (intro power_increasing) auto
  then have "(10000000::int) * 2 ^ nat k \<le> 10000000 * 2 ^ 39" by simp
  also have "\<dots> < 2 ^ 63" by simp
  finally have up: "(10000000::int) * 2 ^ nat k < 2 ^ 63" .
  have lo: "- (2 ^ 63) \<le> (10000000::int) * 2 ^ nat k"
    by (rule order_trans[of _ 0]) simp_all
  have "sint (word_of_int (10000000 * 2 ^ nat k) :: 64 word)
          = signed_take_bit 63 (10000000 * 2 ^ nat k :: int)"
    by (simp only: sint_sbintrunc') simp
  also have "\<dots> = 10000000 * 2 ^ nat k"
    by (rule signed_take_bit_int_eq_self[OF lo up])
  finally show ?thesis unfolding backoff_word .
qed

lemma backoff_40: "sint (backoff 40) \<noteq> 10000000 * 2 ^ 40"
  by (simp add: backoff_def baseDelay_def)

lemma backoff_40_value: "sint (backoff 40) = - 7451627795949551616"
  by (simp add: backoff_def baseDelay_def)

lemma attempts_with_backoff: "attempts (with_backoff a xs) = xs"
  by (induction a xs rule: with_backoff.induct) simp_all

lemma sleeps_with_backoff:
  "sleeps (with_backoff a xs) = map (\<lambda>i. backoff (a + int i)) [0..<length xs - 1]"
proof (induction a xs rule: with_backoff.induct)
  case (3 attempt x y ys)
  have "[0..<Suc (length ys)] = 0 # map Suc [0..<length ys]"
    by (simp add: upt_conv_Cons map_Suc_upt del: upt_Suc)
  with 3 show ?case by (simp add: comp_def ac_simps del: upt_Suc)
qed simp_all

lemma HandleRequestWithRetries_zero:
  "HandleRequestWithRetries b req 0 cp = HandleRequest b req cp"
proof -
  obtain resp err req1 cp1 where h: "HandleRequest b req cp = ((resp, err), req1, cp1)"
    by (cases "HandleRequest b req cp") auto
  have "retry_loop b 0 0 (zero_Response, None) req cp = (((resp, err), [Attempt resp err]), req1, cp1)"
    by (rule retry_loop_stop[OF _ h]) simp_all
  then show ?thesis by (simp add: HandleRequestWithRetries_def h)
qed

text \<open>
  The retry loop with \<^verbatim>\<open>maxRetries\<close> at least 0: \<^verbatim>\<open>HandleRequestWithRetries\<close> calls
  \<^verbatim>\<open>HandleRequest\<close> at least once and at most \<^verbatim>\<open>maxRetries + 1\<close> times; it sleeps
  between two calls and nowhere else; it returns what the last call returned, and every
  call before the last failed, so it returns at the first success; a close command is
  called once. The sleep before retry \<open>k\<close> lasts \<open>10 ms * 2 ^ (k - 1)\<close>, in nanoseconds
  \<open>10000000 * 2 ^ (k - 1)\<close>, as long as \<open>k\<close> is at most 40. With \<^verbatim>\<open>maxRetries = 0\<close> the
  function is \<^verbatim>\<open>HandleRequest\<close>.
\<close>

theorem HandleRequestWithRetries_attempts:
  assumes "0 \<le> maxRetries"
  shows "1 \<le> length (attempts (retry_events b maxRetries req cp)) \<and>
         int (length (attempts (retry_events b maxRetries req cp))) \<le> maxRetries + 1 \<and>
         retry_events b maxRetries req cp = with_backoff 0 (attempts (retry_events b maxRetries req cp)) \<and>
         fst (HandleRequestWithRetries b req maxRetries cp) = last (attempts (retry_events b maxRetries req cp)) \<and>
         (\<forall>x \<in> set (butlast (attempts (retry_events b maxRetries req cp))). snd x \<noteq> None) \<and>
         (Command req = CmdClose \<longrightarrow> length (attempts (retry_events b maxRetries req cp)) = 1) \<and>
         (\<forall>k. 1 \<le> k \<longrightarrow> k \<le> length (sleeps (retry_events b maxRetries req cp)) \<longrightarrow> k \<le> 40 \<longrightarrow>
              sint (sleeps (retry_events b maxRetries req cp) ! (k - 1)) = 10000000 * 2 ^ (k - 1)) \<and>
         HandleRequestWithRetries b req 0 cp = HandleRequest b req cp"
proof -
  obtain res evs req' cp' where
    rl: "retry_loop b maxRetries 0 (zero_Response, None) req cp = ((res, evs), req', cp')"
    by (cases "retry_loop b maxRetries 0 (zero_Response, None) req cp") auto
  from retry_loop_trace[OF rl assms] obtain xs where
    xs: "xs \<noteq> []" "evs = with_backoff 0 xs" "int (length xs) \<le> maxRetries + 1" "res = last xs"
        "\<forall>x\<in>set (butlast xs). snd x \<noteq> None" "Command req = CmdClose \<longrightarrow> length xs = 1"
    by auto
  have ev: "retry_events b maxRetries req cp = with_backoff 0 xs"
    by (simp add: retry_events_def rl xs(2))
  have at: "attempts (retry_events b maxRetries req cp) = xs"
    by (simp add: ev attempts_with_backoff)
  have sl: "sleeps (retry_events b maxRetries req cp) = map (\<lambda>i. backoff (int i)) [0..<length xs - 1]"
    by (simp add: ev sleeps_with_backoff)
  have delays: "sint (sleeps (retry_events b maxRetries req cp) ! (k - 1)) = 10000000 * 2 ^ (k - 1)"
    if "1 \<le> k" "k \<le> length (sleeps (retry_events b maxRetries req cp))" "k \<le> 40" for k
  proof -
    from that sl have "k - 1 < length xs - 1" by simp
    then have "sleeps (retry_events b maxRetries req cp) ! (k - 1) = backoff (int (k - 1))"
      by (simp add: sl)
    moreover have "sint (backoff (int (k - 1))) = 10000000 * 2 ^ nat (int (k - 1))"
      using that by (intro backoff_small) auto
    ultimately show ?thesis by simp
  qed
  from xs(1) have "1 \<le> length xs" by (cases xs) simp_all
  moreover have "fst (HandleRequestWithRetries b req maxRetries cp) = last xs"
    by (simp add: HandleRequestWithRetries_def rl xs(4))
  ultimately show ?thesis
    using xs delays by (simp add: at ev[symmetric] HandleRequestWithRetries_zero)
qed

lemma HandleRequest_nop:
  "HandleRequest b nop_request cp
     = ((zero_Response\<lparr>ID := 7, Err := ''unknown command: nop''\<rparr>, Some ''unknown command: nop''),
        nop_request, cp)"
  by (simp add: HandleRequest_def nop_request_def CmdPut_def CmdGet_def CmdClose_def)

lemma retry_loop_nop:
  "a \<le> m \<Longrightarrow>
   snd (fst (retry_loop b m a cur nop_request cp))
     = with_backoff a (replicate (nat (m + 1 - a))
         (zero_Response\<lparr>ID := 7, Err := ''unknown command: nop''\<rparr>, Some ''unknown command: nop''))"
proof (induction "nat (m - a)" arbitrary: a cur cp)
  case 0
  then have "m \<le> a" by simp
  with 0 have "a = m" by simp
  then show ?case
    using retry_loop_stop[where a=m and m=m and cur=cur and b=b and cp=cp, OF _ HandleRequest_nop]
    by simp
next
  case (Suc n)
  then have lt: "a < m" by simp
  have c: "Command nop_request \<noteq> CmdClose" by (simp add: nop_request_def CmdClose_def)
  let ?x = "(zero_Response\<lparr>ID := 7, Err := ''unknown command: nop''\<rparr>, Some ''unknown command: nop'')"
  from Suc(2) have n: "n = nat (m - (a + 1))" by simp
  from lt have le: "a + 1 \<le> m" by simp
  note ih = Suc(1)[OF n le, of ?x "count_retry a cp"]
  have r: "nat (m + 1 - a) = Suc (nat (m + 1 - (a + 1)))" using lt by simp
  have ne: "replicate (nat (m + 1 - (a + 1))) ?x \<noteq> []" using lt by simp
  show ?case
    using retry_loop_retry[where cur=cur and b=b and cp=cp, OF lt HandleRequest_nop _ c] ih
    by (simp add: r with_backoff_Cons[OF ne] split: prod.splits del: replicate_Suc)
       (simp add: with_backoff_Cons[OF ne, simplified])
qed

text \<open>
  Claim C8. The delay before retry \<open>k\<close> is computed as
  \<^verbatim>\<open>baseDelay * time.Duration(1<<uint(attempt))\<close>, a product of 64-bit numbers of
  nanoseconds, where the comment above it reads "baseDelay * 2^attempt". A request that
  fails every time, with \<^verbatim>\<open>maxRetries = 41\<close>, is attempted 42 times with 41 sleeps between
  the attempts. The first 40 sleeps last \<open>10 ms * 2 ^ (k - 1)\<close>; at attempt 40 the product
  has wrapped around: the sleep before retry 41 is not \<open>10 ms * 2 ^ 40\<close> but a negative
  duration, with which \<^verbatim>\<open>time.Sleep\<close> returns at once.
\<close>

theorem retry_delay_wraps:
  "length (attempts (retry_events idle_backend 41 nop_request (fresh_CacheProg ()))) = 42 \<and>
   length (sleeps (retry_events idle_backend 41 nop_request (fresh_CacheProg ()))) = 41 \<and>
   map sint (take 40 (sleeps (retry_events idle_backend 41 nop_request (fresh_CacheProg ()))))
     = map (\<lambda>k. 10000000 * 2 ^ k) [0..<40] \<and>
   sint (sleeps (retry_events idle_backend 41 nop_request (fresh_CacheProg ())) ! 40)
     = - 7451627795949551616 \<and>
   sint (sleeps (retry_events idle_backend 41 nop_request (fresh_CacheProg ())) ! 40)
     \<noteq> 10000000 * 2 ^ 40"
proof -
  have at: "length (attempts (retry_events idle_backend 41 nop_request (fresh_CacheProg ()))) = 42"
    by (simp add: retry_events_def retry_loop_nop attempts_with_backoff)
  have sl: "sleeps (retry_events idle_backend 41 nop_request (fresh_CacheProg ()))
          = map (\<lambda>i. backoff (int i)) [0..<41]"
    by (simp add: retry_events_def retry_loop_nop sleeps_with_backoff del: upt_Suc)
  have "[0..<41] = [0..<40] @ [40::nat]"
    using upt_Suc_append[of 0 40] by (simp del: upt_Suc)
  then have tk: "take 40 (map (\<lambda>i. backoff (int i)) [0..<41]) = map (\<lambda>i. backoff (int i)) [0..<40]"
    by simp
  have sm: "map sint (map (\<lambda>i. backoff (int i)) [0..<40]) = map (\<lambda>k. 10000000 * 2 ^ k) [0..<40]"
    unfolding map_map by (rule map_cong[OF refl]) (simp add: backoff_small)
  have l: "map (\<lambda>i. backoff (int i)) [0..<41] ! 40 = backoff 40"
    by (subst nth_map) simp_all
  show ?thesis
    unfolding sl tk sm l using at backoff_40 backoff_40_value
    by (simp add: sl del: upt_Suc)
qed

theorem HandleRequestWithRetries_attempts_witness:
  "int (length (attempts (retry_events idle_backend 2 nop_request (fresh_CacheProg ())))) \<le> 2 + 1 \<and>
   length (sleeps (retry_events idle_backend 2 nop_request (fresh_CacheProg ()))) = 2 \<and>
   sint (sleeps (retry_events idle_backend 2 nop_request (fresh_CacheProg ())) ! 0) = 10000000 \<and>
   sint (sleeps (retry_events idle_backend 2 nop_request (fresh_CacheProg ())) ! 1) = 20000000 \<and>
   HandleRequestWithRetries idle_backend nop_request 0 (fresh_CacheProg ())
     = HandleRequest idle_backend nop_request (fresh_CacheProg ())"
proof -
  have l: "length (sleeps (retry_events idle_backend 2 nop_request (fresh_CacheProg ()))) = 2"
    by (simp add: retry_events_def retry_loop_nop sleeps_with_backoff)
  from HandleRequestWithRetries_attempts[of 2 idle_backend nop_request "fresh_CacheProg ()"]
  have th: "int (length (attempts (retry_events idle_backend 2 nop_request (fresh_CacheProg ())))) \<le> 2 + 1"
    and d: "\<And>k. 1 \<le> k \<Longrightarrow> k \<le> length (sleeps (retry_events idle_backend 2 nop_request (fresh_CacheProg ()))) \<Longrightarrow> k \<le> 40 \<Longrightarrow>
              sint (sleeps (retry_events idle_backend 2 nop_request (fresh_CacheProg ())) ! (k - 1)) = 10000000 * 2 ^ (k - 1)"
    and z: "HandleRequestWithRetries idle_backend nop_request 0 (fresh_CacheProg ())
     = HandleRequest idle_backend nop_request (fresh_CacheProg ())"
    by simp_all
  from d[of 1] d[of 2] l th z show ?thesis by simp
qed

lemma hex_val_digit: "n < 16 \<Longrightarrow> hex_val (hex_digit n) = Some n"
  by (auto simp: hex_val_def hex_digit_def Let_def)

lemma Decode_Encode_hex: "DecodeStringHex (EncodeToStringHex bs) = Some bs"
proof (induction bs)
  case Nil
  show ?case by simp
next
  case (Cons b bs)
  have "(of_char b :: nat) < 256" by simp
  then have d: "(of_char b :: nat) div 16 < 16" by (simp add: div_less_iff_less_mult)
  have "(of_char b :: nat) div 16 * 16 + of_char b mod 16 = of_char b" by simp
  with Cons d show ?case by (simp add: hex_val_digit)
qed

lemma hex_char_digit: "n < 16 \<Longrightarrow> hex_char (hex_digit n)"
  by (simp add: hex_char_def hex_val_digit)

lemma hex_chars_Encode: "list_all hex_char (EncodeToStringHex bs)"
proof (induction bs)
  case (Cons b bs)
  have "(of_char b :: nat) < 256" by simp
  then have "(of_char b :: nat) div 16 < 16" by (simp add: div_less_iff_less_mult)
  with Cons show ?case by (simp add: hex_char_digit)
qed simp

lemma hex_char_range:
  "hex_char c \<Longrightarrow> (of_char c :: nat) < 0x80 \<and> c \<notin> set (map hd space_encodings)
      \<and> c \<notin> set (map last space_encodings) \<and> c \<noteq> newline"
  by (auto simp: hex_char_def hex_val_def Let_def space_encodings_def newline_def split: if_splits)

lemma trim_left_id: "s = [] \<or> hd s \<notin> set (map hd space_encodings) \<Longrightarrow> trim_left s = s"
  by (cases s) (auto simp: trim_left.simps space_width_0)

lemma trim_right_id: "s = [] \<or> last s \<notin> set (map last space_encodings) \<Longrightarrow> trim_right s = s"
  by (subst trim_right.simps) (auto simp: space_width_end_0)

lemma TrimSpace_id:
  "s = [] \<or> (hd s \<notin> set (map hd space_encodings) \<and> last s \<notin> set (map last space_encodings))
     \<Longrightarrow> TrimSpace s = s"
  by (auto simp: TrimSpace_def trim_left_id trim_right_id)

lemma token_hex: "list_all hex_char s \<Longrightarrow> token s = s"
  by (induction s) (auto dest!: hex_char_range simp: space_width_0)

lemma Sscanf_s_hex: "list_all hex_char s \<Longrightarrow> s \<noteq> [] \<Longrightarrow> Sscanf_s s = Some s"
proof -
  assume h: "list_all hex_char s" and n: "s \<noteq> []"
  then have "hex_char (hd s)" by (cases s) simp_all
  then have "trim_left s = s" using hex_char_range by (intro trim_left_id) auto
  with h n show ?thesis by (simp add: Sscanf_s_def token_hex)
qed

lemma Split_lines_line:
  "newline \<notin> set l \<Longrightarrow> Split_lines (l @ newline # rest) = l # Split_lines rest"
  by (induction l) (auto split: list.splits)

lemma Split_lines_last: "newline \<notin> set l \<Longrightarrow> Split_lines l = [l]"
  by (induction l) (auto split: list.splits)

lemma scan_lines_no_size:
  "\<forall>l \<in> set ls. \<not> HasPrefix (TrimSpace l) ''size:'' \<Longrightarrow>
     fst (snd (scan_lines ls (h, sz, t))) = sz"
  by (induction ls arbitrary: h sz t) (auto simp: Let_def)

lemma scan_lines_no_time:
  "\<forall>l \<in> set ls. \<not> HasPrefix (TrimSpace l) ''time:'' \<Longrightarrow>
     snd (snd (scan_lines ls (h, sz, t))) = t"
  by (induction ls arbitrary: h sz t) (auto simp: Let_def)

lemma scan_lines_no_outputID:
  "\<forall>l \<in> set ls. \<not> HasPrefix (TrimSpace l) ''outputID:'' \<Longrightarrow>
     fst (scan_lines ls (h, sz, t)) = h"
  by (induction ls arbitrary: h sz t) (auto simp: Let_def)

lemma scan_lines_append: "scan_lines (xs @ ys) v = scan_lines ys (scan_lines xs v)"
  by (induction xs arbitrary: v) (auto simp: Let_def)

lemma scan_lines_outputID_line:
  "TrimSpace l = l \<Longrightarrow> HasPrefix l ''outputID:'' \<Longrightarrow> Sscanf_s (drop 9 l) = Some v \<Longrightarrow>
     scan_lines (l # ls) (h, sz, t) = scan_lines ls (v, sz, t)"
  by simp


section \<open>Properties of the local cache lookup\<close>


text \<open>
  Claim C10. Of the three sidecar fields only the outputID is required by
  \<^verbatim>\<open>readMetadata\<close>: a sidecar with one \<^verbatim>\<open>outputID:\<close> line holding the hexadecimal form of a
  non-empty outputID is accepted whatever else it holds, a sidecar with no \<^verbatim>\<open>size:\<close> line
  gives size 0, and one with no \<^verbatim>\<open>time:\<close> line gives the put time 0 (seconds since the epoch).
\<close>

theorem readMetadata_outputID_suffices:
  assumes "files f (metadataPath lc a) = Some (File data)"
    and "Split_lines data = pre @ (''outputID:'' @ EncodeToStringHex outputID) # post"
    and "outputID \<noteq> []"
    and "\<forall>l \<in> set (pre @ post). \<not> HasPrefix (TrimSpace l) ''outputID:''"
  shows "\<exists>sz t. readMetadata lc a f = Inr \<lparr>MetaOutputID = outputID, MetaSize = sz, PutTime = t\<rparr>
           \<and> ((\<forall>l \<in> set (Split_lines data). \<not> HasPrefix (TrimSpace l) ''size:'') \<longrightarrow> sz = 0)
           \<and> ((\<forall>l \<in> set (Split_lines data). \<not> HasPrefix (TrimSpace l) ''time:'') \<longrightarrow> t = 0)"
proof -
  let ?hex = "EncodeToStringHex outputID"
  let ?line = "''outputID:'' @ ?hex"
  have hex: "list_all hex_char ?hex" by (rule hex_chars_Encode)
  have ne: "?hex \<noteq> []" using assms(3) by (cases outputID) simp_all
  then have "hex_char (last ?hex)" using hex by (simp add: list_all_iff)
  then have "last ?line \<notin> set (map last space_encodings)"
    using ne hex_char_range by auto
  then have trim: "TrimSpace ?line = ?line"
    by (intro TrimSpace_id) (simp add: space_encodings_def)
  obtain h0 sz0 t0 where pre: "scan_lines pre ([], 0, 0) = (h0, sz0, t0)"
    by (cases "scan_lines pre ([], 0, 0)") auto
  have "HasPrefix ?line ''outputID:''" by (simp add: HasPrefix_def)
  moreover have "Sscanf_s (drop 9 ?line) = Some ?hex" by (simp add: Sscanf_s_hex[OF hex ne])
  ultimately have line: "scan_lines [?line] (h0, sz0, t0) = (?hex, sz0, t0)"
    using scan_lines_outputID_line[OF trim, of ?hex "[]" h0 sz0 t0] by simp
  obtain h1 sz1 t1 where post: "scan_lines post (?hex, sz0, t0) = (h1, sz1, t1)"
    by (cases "scan_lines post (?hex, sz0, t0)") auto
  have "h1 = ?hex"
    using scan_lines_no_outputID[of post ?hex sz0 t0] assms(4) post by simp
  with pre line post have scan: "scan_metadata data = (?hex, sz1, t1)"
    using scan_lines_append[of pre "?line # post" "([], 0, 0)"]
          scan_lines_append[of "[?line]" post "(h0, sz0, t0)"]
    by (simp add: scan_metadata_def assms(2))
  have r: "readMetadata lc a f = Inr \<lparr>MetaOutputID = outputID, MetaSize = sz1, PutTime = t1\<rparr>"
    by (simp add: readMetadata_def ReadFile_def assms(1) scan ne Decode_Encode_hex)
  have s: "sz1 = 0" if "\<forall>l \<in> set (Split_lines data). \<not> HasPrefix (TrimSpace l) ''size:''"
    using scan_lines_no_size[OF that, of "[]" 0 0] scan by (simp add: scan_metadata_def)
  have t: "t1 = 0" if "\<forall>l \<in> set (Split_lines data). \<not> HasPrefix (TrimSpace l) ''time:''"
    using scan_lines_no_time[OF that, of "[]" 0 0] scan by (simp add: scan_metadata_def)
  from r s t show ?thesis by blast
qed

lemmas path_eval = actionIDToPath_def metadataPath_def Join_def Clean_def clean_element_def
  HasPrefix_def Let_def hex_digit_def char_of_eq_iff

lemma Split_entry_aa:
  "Split_lines ''outputID:ab\<newline>size:3\<newline>time:5\<newline>'' = [''outputID:ab'', ''size:3'', ''time:5'', []]"
  by (simp add: newline_def)

lemma TrimSpace_entry_aa:
  "TrimSpace ''outputID:ab'' = ''outputID:ab''" "TrimSpace ''size:3'' = ''size:3''"
  "TrimSpace ''time:5'' = ''time:5''" "TrimSpace [] = []"
  by (simp_all add: space_eval)

lemma Sscanf_entry_aa:
  "Sscanf_s ''ab'' = Some ''ab''" "Sscanf_d ''3'' = Some 3" "Sscanf_d ''5'' = Some 5"
  by (simp_all add: Sscanf_s_def Sscanf_d_def trim_left.simps space_width_def space_encodings_def
        HasPrefix_def is_digit_def digits_value_def Let_def)

lemma scan_entry_aa:
  "scan_metadata ''outputID:ab\<newline>size:3\<newline>time:5\<newline>'' = (''ab'', 3, 5)"
  unfolding scan_metadata_def Split_entry_aa
  apply (simp only: scan_lines.simps Let_def TrimSpace_entry_aa)
  apply (simp add: HasPrefix_def Sscanf_entry_aa)
  done


theorem readMetadata_outputID_suffices_witness:
  "readMetadata cache0 [CHR 0xAA] outputID_only
     = Inr \<lparr>MetaOutputID = [CHR 0xAB], MetaSize = 0, PutTime = 0\<rparr>"
proof -
  have p: "metadataPath cache0 [CHR 0xAA] = ''/c/aa.meta''"
    by (simp add: path_eval cache0_def)
  have e: "EncodeToStringHex [CHR 0xAB] = ''ab''" by (simp add: hex_digit_def char_of_eq_iff)
  have f: "files outputID_only (metadataPath cache0 [CHR 0xAA]) = Some (File ''outputID:ab\<newline>'')"
    by (simp add: p outputID_only_def)
  have s: "Split_lines ''outputID:ab\<newline>'' = [] @ (''outputID:'' @ EncodeToStringHex [CHR 0xAB]) # [[]]"
    unfolding e by (simp add: newline_def)
  note t = TrimSpace_entry_aa(4,1)
  have n: "\<forall>l \<in> set ([] @ [[]]). \<not> HasPrefix (TrimSpace l) ''outputID:''"
    by (simp add: t HasPrefix_def)
  have ns: "\<forall>l \<in> set (Split_lines ''outputID:ab\<newline>''). \<not> HasPrefix (TrimSpace l) ''size:''"
    by (simp add: newline_def t HasPrefix_def)
  have nt: "\<forall>l \<in> set (Split_lines ''outputID:ab\<newline>''). \<not> HasPrefix (TrimSpace l) ''time:''"
    by (simp add: newline_def t HasPrefix_def)
  from readMetadata_outputID_suffices[OF f s _ n] ns nt show ?thesis by auto
qed

section \<open>A failed metadata write\<close>

lemma writeMetadata_failed_keeps_sidecar:
  assumes "writeMetadata lc a meta f = (Some e, f')"
  shows "files f' (metadataPath lc a) = files f (metadataPath lc a)"
  using assms
  by (auto simp: writeMetadata_def WriteFile_def Rename_def Remove_def Let_def
      split: option.splits node.splits if_splits)

lemma Write_stale_aa:
  "Write cache0 [CHR 0xAA] (''hello'', False) ''1'' stale_aa = (Inr ''/c/aa'', stale_aa_after)"
proof -
  have p: "actionIDToPath cache0 [CHR 0xAA] = ''/c/aa''"
    by (simp add: path_eval cache0_def)
  have t: "Join (cacheDir cache0) (''.tmp-'' @ ''1'') = ''/c/.tmp-1''"
    by (simp add: path_eval cache0_def)
  show ?thesis
    unfolding Write_def CreateTemp_def p t
    by (simp add: Rename_def Remove_def Abs_def Clean_def clean_element_def HasPrefix_def Let_def
        stale_aa_def entry_aa_def stale_aa_after_def fun_eq_iff)
qed

lemma writeMetadata_stale_aa:
  "writeMetadata cache0 [CHR 0xAA] meta stale_aa_after = (Some WriteTempMetadataFailed, stale_aa_after)"
proof -
  have p: "metadataPath cache0 [CHR 0xAA] = ''/c/aa.meta''"
    by (simp add: path_eval cache0_def)
  show ?thesis
    unfolding writeMetadata_def p
    by (simp add: WriteFile_def Let_def stale_aa_after_def)
qed

lemma Check_stale_aa:
  "Check cache0 [CHR 0xAA] stale_aa_after
     = (Some \<lparr>MetaOutputID = [CHR 0xAB], MetaSize = 3, PutTime = 5\<rparr>, [])"
proof -
  have p: "actionIDToPath cache0 [CHR 0xAA] = ''/c/aa''" "metadataPath cache0 [CHR 0xAA] = ''/c/aa.meta''"
    by (simp_all add: path_eval cache0_def)
  have d: "DecodeStringHex ''ab'' = Some [CHR 0xAB]" by (simp add: hex_val_def char_of_eq_iff)
  have r: "ReadFile stale_aa_after ''/c/aa.meta'' = Inr ''outputID:ab\<newline>size:3\<newline>time:5\<newline>''"
    by (simp add: ReadFile_def stale_aa_after_def)
  have s: "Stat stale_aa_after ''/c/aa'' = None"
    by (simp add: Stat_def stale_aa_after_def)
  show ?thesis
    unfolding Check_def readMetadata_def p r s
    by (simp add: scan_entry_aa d del: DecodeStringHex.simps)
qed

text \<open>
  Claim C7. The cache holds an entry for the action (body and sidecar) from an earlier
  store, and the path of the temporary sidecar is taken by a directory, so that the metadata
  write of the next store fails after its body write has succeeded.
  \<^verbatim>\<open>WriteWithMetadata\<close> returns the disk path with no error and logs one warning, as the claim
  says; the following \<^verbatim>\<open>Check\<close> does not answer nil: it answers the metadata of the earlier
  store (outputID \<open>ab\<close>, size 3) for the new body of 5 bytes, and logs nothing.
\<close>

theorem WriteWithMetadata_stale_sidecar:
  "WriteWithMetadata cache0 [CHR 0xAA] (''hello'', False)
       \<lparr>MetaOutputID = [CHR 0xCD], MetaSize = 5, PutTime = 9\<rparr> ''1'' stale_aa
     = (Inr ''/c/aa'',
        [Warn ''failed to write local cache metadata'' ''aa'' WriteTempMetadataFailed],
        stale_aa_after) \<and>
   ReadFile stale_aa_after (actionIDToPath cache0 [CHR 0xAA]) = Inr ''hello'' \<and>
   Check cache0 [CHR 0xAA] stale_aa_after
     = (Some \<lparr>MetaOutputID = [CHR 0xAB], MetaSize = 3, PutTime = 5\<rparr>, [])"
proof -
  have e: "EncodeToStringHex [CHR 0xAA] = ''aa''" by (simp add: hex_digit_def char_of_eq_iff)
  have p: "actionIDToPath cache0 [CHR 0xAA] = ''/c/aa''"
    by (simp add: path_eval cache0_def)
  have r: "ReadFile stale_aa_after ''/c/aa'' = Inr ''hello''"
    by (simp add: ReadFile_def stale_aa_after_def)
  show ?thesis
    unfolding Check_stale_aa p r
    by (simp add: WriteWithMetadata_def Write_stale_aa writeMetadata_stale_aa e
        del: EncodeToStringHex.simps)
qed

section \<open>A put of length 0 on the disk backend\<close>

lemma FormatUint_digits: "list_all is_digit (FormatUint n)"
proof (induction n rule: FormatUint.induct)
  case (1 n)
  have d: "is_digit (char_of (48 + k))" if "k < 10" for k :: nat
    using that by (simp add: is_digit_def)
  show ?case
  proof (cases "n < 10")
    case True
    then show ?thesis by (subst FormatUint.simps) (simp add: d)
  next
    case False
    with 1 show ?thesis by (subst FormatUint.simps) (simp add: d)
  qed
qed

lemma FormatUint_nonempty: "FormatUint n \<noteq> []"
  by (subst FormatUint.simps) simp

lemma digit_range:
  "is_digit c \<Longrightarrow> c \<notin> set (map last space_encodings) \<and> c \<noteq> newline \<and> c \<noteq> CHR ''-''"
  by (auto simp: is_digit_def space_encodings_def newline_def)

lemma FormatUint_chars:
  "newline \<notin> set (FormatUint n)" "last (FormatUint n) \<notin> set (map last space_encodings)"
proof -
  have d: "is_digit c" if "c \<in> set (FormatUint n)" for c
    using FormatUint_digits[of n] that by (simp add: list_all_iff)
  show "newline \<notin> set (FormatUint n)"
    using d digit_range by blast
  have "last (FormatUint n) \<in> set (FormatUint n)"
    by (rule last_in_set) (rule FormatUint_nonempty)
  then show "last (FormatUint n) \<notin> set (map last space_encodings)"
    using d digit_range by blast
qed

lemma FormatInt_chars: "newline \<notin> set (FormatInt i)"
proof -
  have "newline \<noteq> CHR ''-''" by (simp add: newline_def)
  then show ?thesis by (simp add: FormatInt_def FormatUint_chars)
qed

lemma FormatInt_last: "FormatInt i \<noteq> [] \<and> last (FormatInt i) \<notin> set (map last space_encodings)"
  using FormatUint_chars(2)[of "nat i"] FormatUint_chars(2)[of "nat (- i)"]
  by (simp add: FormatInt_def FormatUint_nonempty)

lemma FormatInt_0: "FormatInt 0 = ''0''"
  by (simp add: FormatInt_def FormatUint.simps char_of_eq_iff)

lemma Split_format_metadata:
  "Split_lines (format_metadata outputID 0 now)
     = [''outputID:'' @ EncodeToStringHex outputID, ''size:0'', ''time:'' @ FormatInt now, []]"
proof -
  have h: "newline \<notin> set (''outputID:'' @ EncodeToStringHex outputID)"
    using hex_chars_Encode[of outputID] hex_char_range
    by (auto simp: list_all_iff newline_def)
  have s: "newline \<notin> set ''size:0''" by (simp add: newline_def)
  have t: "newline \<notin> set (''time:'' @ FormatInt now)"
    using FormatInt_chars[of now] by (simp add: newline_def)
  have "format_metadata outputID 0 now
      = (''outputID:'' @ EncodeToStringHex outputID) @ newline #
          (''size:0'' @ newline # ((''time:'' @ FormatInt now) @ newline # []))"
    by (simp add: format_metadata_def FormatInt_0)
  then show ?thesis
    by (simp only: Split_lines_line[OF h] Split_lines_line[OF s] Split_lines_line[OF t]
        Split_lines.simps)
qed

lemma TrimSpace_outputID_line:
  "TrimSpace (''outputID:'' @ EncodeToStringHex outputID) = ''outputID:'' @ EncodeToStringHex outputID"
proof (rule TrimSpace_id, rule disjI2, rule conjI)
  show "hd (''outputID:'' @ EncodeToStringHex outputID) \<notin> set (map hd space_encodings)"
    by (simp add: space_encodings_def)
  show "last (''outputID:'' @ EncodeToStringHex outputID) \<notin> set (map last space_encodings)"
  proof (cases "EncodeToStringHex outputID = []")
    case True
    then show ?thesis by (simp add: space_encodings_def)
  next
    case False
    then have "hex_char (last (EncodeToStringHex outputID))"
      using hex_chars_Encode[of outputID] by (simp add: list_all_iff)
    with False show ?thesis using hex_char_range by simp
  qed
qed

lemma TrimSpace_time_line: "TrimSpace (''time:'' @ FormatInt now) = ''time:'' @ FormatInt now"
proof (rule TrimSpace_id, rule disjI2, rule conjI)
  show "hd (''time:'' @ FormatInt now) \<notin> set (map hd space_encodings)"
    by (simp add: space_encodings_def)
  show "last (''time:'' @ FormatInt now) \<notin> set (map last space_encodings)"
    using FormatInt_last[of now] by simp
qed

lemma TrimSpace_size_line: "TrimSpace ''size:0'' = ''size:0''" "TrimSpace [] = []"
  by (simp_all add: space_eval)

lemma Sscanf_s_Encode:
  "(case Sscanf_s (EncodeToStringHex outputID) of None \<Rightarrow> [] | Some v \<Rightarrow> v) = EncodeToStringHex outputID"
proof (cases "EncodeToStringHex outputID = []")
  case True
  then show ?thesis by (simp add: Sscanf_s_def trim_left_id)
next
  case False
  then show ?thesis by (simp add: Sscanf_s_hex hex_chars_Encode)
qed

lemma Sscanf_d_0: "Sscanf_d ''0'' = Some 0"
proof -
  have "trim_left ''0'' = ''0''" by (rule trim_left_id) (simp add: space_encodings_def)
  then show ?thesis by (simp add: Sscanf_d_def is_digit_def digits_value_def Let_def)
qed

lemma HasPrefix_Cons: "HasPrefix (c # s) (d # p) = (c = d \<and> HasPrefix s p)"
  by (auto simp: HasPrefix_def)

lemma HasPrefix_Nil: "HasPrefix s []"
  by (simp add: HasPrefix_def)

lemma HasPrefix_Nil_Cons: "\<not> HasPrefix [] (d # p)"
  by (simp add: HasPrefix_def)

lemmas prefix_eval = HasPrefix_Cons HasPrefix_Nil HasPrefix_Nil_Cons

lemma scan_format_metadata:
  "\<exists>t. scan_metadata (format_metadata outputID 0 now) = (EncodeToStringHex outputID, 0, t)"
proof -
  have 1: "scan_lines ((''outputID:'' @ EncodeToStringHex outputID) # ls) ([], 0, 0)
             = scan_lines ls (EncodeToStringHex outputID, 0, 0)" for ls
    apply (subst scan_lines.simps)
    apply (simp only: TrimSpace_outputID_line Let_def)
    apply (simp add: prefix_eval Sscanf_s_Encode)
    done
  have 2: "scan_lines (''size:0'' # ls) (h, 0, 0) = scan_lines ls (h, 0, 0)" for ls h
    apply (subst scan_lines.simps)
    apply (simp only: TrimSpace_size_line Let_def)
    apply (simp add: prefix_eval Sscanf_d_0)
    done
  have 3: "\<exists>t. scan_lines [''time:'' @ FormatInt now, []] (h, 0, 0) = (h, 0, t)" for h
    apply (simp only: scan_lines.simps TrimSpace_size_line TrimSpace_time_line Let_def)
    apply (simp add: prefix_eval)
    done
  show ?thesis
    unfolding scan_metadata_def Split_format_metadata 1 2 by (rule 3)
qed

lemma Split_path_name: "CHR ''/'' \<notin> set n \<Longrightarrow> Split_path n = [n]"
  by (induction n) (auto split: list.splits)

lemma Split_path_nonempty: "Split_path d \<noteq> []"
  by (induction d) (auto split: list.splits)

lemma Split_path_append:
  "CHR ''/'' \<notin> set n \<Longrightarrow> Split_path (d @ CHR ''/'' # n) = Split_path d @ [n]"
  using Split_path_nonempty
  by (induction d) (auto simp: Split_path_name split: list.splits)

lemma join_with_snoc:
  "join_with sep (st @ [n]) = (if st = [] then n else join_with sep st @ sep @ n)"
  by (induction sep st rule: join_with.induct) simp_all

lemma HasPrefix_append: "d \<noteq> [] \<Longrightarrow> HasPrefix (d @ x) ''/'' = HasPrefix d ''/''"
  by (cases d) (simp_all add: HasPrefix_def)

lemma Clean_child:
  assumes "d \<noteq> []" and "n \<noteq> []" and "CHR ''/'' \<notin> set n" and "n \<noteq> ''.''" and "n \<noteq> ''..''"
  shows "Clean (d @ CHR ''/'' # n)
     = (if HasPrefix d ''/'' then ''/'' else [])
         @ (if foldl (clean_element (HasPrefix d ''/'')) [] (Split_path d) = [] then []
            else join_with ''/'' (foldl (clean_element (HasPrefix d ''/'')) [] (Split_path d)) @ ''/'')
         @ n"
  using assms
  by (simp add: Clean_def HasPrefix_append Split_path_append clean_element_def join_with_snoc Let_def)

lemma Clean_dir:
  assumes "d \<noteq> []"
  shows "Clean (d @ ''/'')
     = (if (if HasPrefix d ''/'' then ''/'' else [])
             @ join_with ''/'' (foldl (clean_element (HasPrefix d ''/'')) [] (Split_path d)) = []
        then ''.''
        else (if HasPrefix d ''/'' then ''/'' else [])
             @ join_with ''/'' (foldl (clean_element (HasPrefix d ''/'')) [] (Split_path d)))"
  using assms Split_path_append[of "[]" d]
  by (simp add: Clean_def HasPrefix_append clean_element_def Let_def)

lemma Clean_name:
  assumes "n \<noteq> []" and "CHR ''/'' \<notin> set n" and "n \<noteq> ''.''" and "n \<noteq> ''..''"
  shows "Clean n = n"
proof -
  from assms(1,2) have "\<not> HasPrefix n ''/''" by (cases n) (auto simp: HasPrefix_def)
  with assms show ?thesis
    by (simp add: Clean_def Split_path_name clean_element_def Let_def)
qed

lemma hex_char_no_slash: "hex_char c \<Longrightarrow> c \<noteq> CHR ''/'' \<and> c \<noteq> CHR ''.''"
  by (auto simp: hex_char_def hex_val_def Let_def split: if_splits)

lemma hex_name:
  "CHR ''/'' \<notin> set (EncodeToStringHex a)"
  "EncodeToStringHex a \<noteq> ''.''" "EncodeToStringHex a \<noteq> ''..''"
  "CHR ''/'' \<notin> set (EncodeToStringHex a @ ''.meta'')"
  "EncodeToStringHex a @ ''.meta'' \<noteq> ''.''" "EncodeToStringHex a @ ''.meta'' \<noteq> ''..''"
proof -
  have h: "c \<noteq> CHR ''/'' \<and> c \<noteq> CHR ''.''" if "c \<in> set (EncodeToStringHex a)" for c
    using hex_chars_Encode[of a] that hex_char_no_slash by (auto simp: list_all_iff)
  then show "CHR ''/'' \<notin> set (EncodeToStringHex a)" by blast
  then show "CHR ''/'' \<notin> set (EncodeToStringHex a @ ''.meta'')" by simp
  from h[of "CHR ''.''"] show "EncodeToStringHex a \<noteq> ''.''" "EncodeToStringHex a \<noteq> ''..''"
    by auto
  have l: "length (EncodeToStringHex a @ ''.meta'') \<ge> 5" by simp
  show "EncodeToStringHex a @ ''.meta'' \<noteq> ''.''"
  proof
    assume "EncodeToStringHex a @ ''.meta'' = ''.''"
    then have "length (EncodeToStringHex a @ ''.meta'') = length ''.''" by (simp only:)
    with l show False by simp
  qed
  show "EncodeToStringHex a @ ''.meta'' \<noteq> ''..''"
  proof
    assume "EncodeToStringHex a @ ''.meta'' = ''..''"
    then have "length (EncodeToStringHex a @ ''.meta'') = length ''..''" by (simp only:)
    with l show False by simp
  qed
qed

lemma Disk_paths_differ: "Disk_actionIDToPath d a \<noteq> Disk_metadataPath d a"
proof (cases "baseDir d = []")
  case True
  show ?thesis
  proof (cases "EncodeToStringHex a = []")
    case e: True
    with True show ?thesis
      by (simp add: Disk_actionIDToPath_def Disk_metadataPath_def Join_def Clean_def
          clean_element_def HasPrefix_def Let_def)
  next
    case False
    with True show ?thesis
      using Clean_name[OF False hex_name(1,2,3)] Clean_name[OF _ hex_name(4,5,6), of a]
      by (simp add: Disk_actionIDToPath_def Disk_metadataPath_def Join_def)
  qed
next
  case False
  note c = Clean_child[OF False _ hex_name(4,5,6), of a, simplified]
  show ?thesis
  proof (cases "EncodeToStringHex a = []")
    case e: True
    with False show ?thesis
      using c Clean_dir[OF False]
      by (auto simp: Disk_actionIDToPath_def Disk_metadataPath_def Join_def split: if_splits)
  next
    case n: False
    with False show ?thesis
      using c Clean_child[OF False n hex_name(1,2,3)]
      by (auto simp: Disk_actionIDToPath_def Disk_metadataPath_def Join_def split: if_splits)
  qed
qed

lemma Disk_Put_zero:
  assumes "files f (Disk_actionIDToPath d a) \<noteq> Some Dir"
    and "files f (Disk_metadataPath d a) \<noteq> Some Dir"
  shows "Disk_Put d now a outputID body 0 f
     = (((case Abs f (Disk_actionIDToPath d a) of None \<Rightarrow> Disk_actionIDToPath d a | Some p \<Rightarrow> p),
         None, body),
        f\<lparr>files := (files f)(Disk_actionIDToPath d a \<mapsto> File [],
                               Disk_metadataPath d a \<mapsto> File (format_metadata outputID 0 now))\<rparr>)"
  using assms Disk_paths_differ[of d a]
  by (auto simp: Disk_Put_def WriteFile_def Let_def Abs_def split: option.splits node.splits)

lemma Disk_Get_stored:
  assumes "files f (Disk_actionIDToPath d a) \<noteq> None"
    and "files f (Disk_metadataPath d a) = Some (File (format_metadata outputID 0 now))"
  shows "\<exists>t. Disk_Get d a f
     = (((outputID,
          (case Abs f (Disk_actionIDToPath d a) of None \<Rightarrow> Disk_actionIDToPath d a | Some p \<Rightarrow> p),
          0, Some t, False), None), f)"
proof -
  from scan_format_metadata[of outputID now] obtain t
    where "scan_metadata (format_metadata outputID 0 now) = (EncodeToStringHex outputID, 0, t)" ..
  with assms have "Disk_Get d a f
     = (((outputID,
          (case Abs f (Disk_actionIDToPath d a) of None \<Rightarrow> Disk_actionIDToPath d a | Some p \<Rightarrow> p),
          0, Some t, False), None), f)"
    by (auto simp: Disk_Get_def Stat_def ReadFile_def Let_def Decode_Encode_hex)
  then show ?thesis ..
qed

lemma HandleRequest_put_stored:
  assumes "Command req = CmdPut"
    and "Put b (ActionID req) (ReqOutputID req) (Body req) (BodySize req) (backend cp)
           = ((diskPath, None, body'), bs)"
  shows "fst (HandleRequest b req cp) = (zero_Response\<lparr>ID := ReqID req, DiskPath := diskPath\<rparr>, None)"
    and "backend (snd (snd (HandleRequest b req cp))) = bs"
  using assms
  by (auto simp: HandleRequest_def Let_def trackActionID_def sfGroup_Do_def split: prod.splits)

lemma HandleRequest_get_hit:
  assumes "Command req = CmdGet"
    and "Get b (ActionID req) (backend cp) = (((outputID, diskPath, sz, putTime, False), None), bs)"
  shows "fst (HandleRequest b req cp)
     = (zero_Response\<lparr>ID := ReqID req, Miss := False, OutputID := outputID, DiskPath := diskPath,
                       Size := sz, Time := putTime\<rparr>, None)"
  using assms
  by (auto simp: HandleRequest_def Let_def trackActionID_def sfGroup_Do_def CmdPut_def CmdGet_def
      split: prod.splits)

lemma ReadRequest_no_body:
  assumes "readLine r = (Inr line, r1)" and "unmarshal line = Some req" and "BodySize req \<le> 0"
  shows "ReadRequest unmarshal r = (Inr req, r1)"
  using assms by (simp add: ReadRequest_def)

text \<open>
  Claim C9. A put request with \<^verbatim>\<open>BodySize\<close> 0: \<^verbatim>\<open>ReadRequest\<close> returns it having read the
  request line only, so that the input still holds whatever follows that line. On the disk
  backend, where neither the path of the body file nor the path of its sidecar is taken by a
  directory, the put succeeds and leaves a body file of length 0 and the sidecar with size 0.
  A get of the same action that follows is a hit with \<^verbatim>\<open>Size\<close> 0, the outputID of the put
  and the \<^verbatim>\<open>DiskPath\<close> the put returned, the path of the empty file.
\<close>

theorem zero_length_put:
  assumes "readLine r = (Inr line, r1)" and "unmarshal line = Some req"
    and "Command req = CmdPut" and "BodySize req = 0"
    and "files (backend cp) (Disk_actionIDToPath d (ActionID req)) \<noteq> Some Dir"
    and "files (backend cp) (Disk_metadataPath d (ActionID req)) \<noteq> Some Dir"
    and "Command greq = CmdGet" and "ActionID greq = ActionID req"
  shows "let put = HandleRequest (Disk_backend d now) req cp;
             cp' = snd (snd put);
             get = HandleRequest (Disk_backend d now') greq cp';
             diskPath = Disk_actionIDToPath d (ActionID req)
         in ReadRequest unmarshal r = (Inr req, r1) \<and>
            snd (fst put) = None \<and>
            files (backend cp') diskPath = Some (File []) \<and>
            files (backend cp') (Disk_metadataPath d (ActionID req))
              = Some (File (format_metadata (ReqOutputID req) 0 now)) \<and>
            snd (fst get) = None \<and>
            \<not> Miss (fst (fst get)) \<and>
            Size (fst (fst get)) = 0 \<and>
            OutputID (fst (fst get)) = ReqOutputID req \<and>
            DiskPath (fst (fst get)) = DiskPath (fst (fst put)) \<and>
            DiskPath (fst (fst put))
              = (case Abs (backend cp) diskPath of None \<Rightarrow> diskPath | Some p \<Rightarrow> p)"
proof -
  let ?dp = "Disk_actionIDToPath d (ActionID req)"
  let ?mp = "Disk_metadataPath d (ActionID req)"
  let ?path = "case Abs (backend cp) ?dp of None \<Rightarrow> ?dp | Some p \<Rightarrow> p"
  let ?f = "(backend cp)\<lparr>files := (files (backend cp))(?dp \<mapsto> File [],
               ?mp \<mapsto> File (format_metadata (ReqOutputID req) 0 now))\<rparr>"
  let ?put = "HandleRequest (Disk_backend d now) req cp"
  let ?cp = "snd (snd ?put)"
  let ?get = "HandleRequest (Disk_backend d now') greq ?cp"
  have rr: "ReadRequest unmarshal r = (Inr req, r1)"
    using assms(1,2,4) by (intro ReadRequest_no_body) simp_all
  have "Put (Disk_backend d now) (ActionID req) (ReqOutputID req) (Body req) (BodySize req)
          (backend cp) = ((?path, None, Body req), ?f)"
    using Disk_Put_zero[OF assms(5,6)] assms(4) by (simp add: Disk_backend_def)
  note p = HandleRequest_put_stored[OF assms(3) this]
  have dp: "files ?f ?dp = Some (File [])"
    using Disk_paths_differ[of d "ActionID req"] by simp
  have mp: "files ?f ?mp = Some (File (format_metadata (ReqOutputID req) 0 now))"
    by simp
  have a: "Abs ?f ?dp = Abs (backend cp) ?dp" by (simp add: Abs_def)
  from dp have "files ?f ?dp \<noteq> None" by simp
  from Disk_Get_stored[OF this mp] a obtain t
    where "Disk_Get d (ActionID req) ?f = (((ReqOutputID req, ?path, 0, Some t, False), None), ?f)"
    by auto
  moreover have "Get (Disk_backend d now') (ActionID greq) = Disk_Get d (ActionID req)"
    by (simp add: Disk_backend_def assms(8))
  ultimately have "Get (Disk_backend d now') (ActionID greq) (backend ?cp)
      = (((ReqOutputID req, ?path, 0, Some t, False), None), ?f)"
    by (simp only: p(2))
  note g = HandleRequest_get_hit[OF assms(7) this]
  show ?thesis
    unfolding Let_def using rr dp mp by (simp add: p g)
qed

theorem zero_length_put_witness:
  "ReadRequest zero_unmarshal \<lparr>pending = zero_put_line @ newline # zero_get_line @ [newline], broken = False\<rparr>
     = (Inr zero_put, \<lparr>pending = zero_get_line @ [newline], broken = False\<rparr>) \<and>
   snd (fst (HandleRequest (Disk_backend disk0 10) zero_put (fresh_CacheProg empty_disk))) = None \<and>
   DiskPath (fst (fst (HandleRequest (Disk_backend disk0 10) zero_put (fresh_CacheProg empty_disk))))
     = ''/c/aa'' \<and>
   files (backend (snd (snd (HandleRequest (Disk_backend disk0 10) zero_put (fresh_CacheProg empty_disk)))))
       ''/c/aa'' = Some (File []) \<and>
   Size (fst (fst (HandleRequest (Disk_backend disk0 20) zero_get
     (snd (snd (HandleRequest (Disk_backend disk0 10) zero_put (fresh_CacheProg empty_disk))))))) = 0 \<and>
   DiskPath (fst (fst (HandleRequest (Disk_backend disk0 20) zero_get
     (snd (snd (HandleRequest (Disk_backend disk0 10) zero_put (fresh_CacheProg empty_disk)))))))
     = ''/c/aa''"
proof -
  have n: "newline \<notin> set zero_put_line" by (simp add: zero_put_line_def newline_def)
  have t: "TrimSpace zero_put_line \<noteq> []" by (simp add: space_eval zero_put_line_def)
  have r: "readLine \<lparr>pending = zero_put_line @ newline # zero_get_line @ [newline], broken = False\<rparr>
             = (Inr zero_put_line, \<lparr>pending = zero_get_line @ [newline], broken = False\<rparr>)"
    by (rule readLine_line[OF n t])
  have u: "zero_unmarshal zero_put_line = Some zero_put" by (simp add: zero_unmarshal_def)
  have c: "Command zero_put = CmdPut" "BodySize zero_put = 0"
    by (simp_all add: zero_put_def CmdPut_def)
  have g: "Command zero_get = CmdGet" "ActionID zero_get = ActionID zero_put"
    by (simp_all add: zero_get_def zero_put_def CmdGet_def)
  have p: "Disk_actionIDToPath disk0 (ActionID zero_put) = ''/c/aa''"
    "Disk_metadataPath disk0 (ActionID zero_put) = ''/c/aa.meta''"
    by (simp_all add: Disk_actionIDToPath_def Disk_metadataPath_def Join_def Clean_def
        clean_element_def HasPrefix_def Let_def hex_digit_def
        char_of_eq_iff disk0_def zero_put_def)
  have d: "files (backend (fresh_CacheProg empty_disk)) (Disk_actionIDToPath disk0 (ActionID zero_put)) \<noteq> Some Dir"
    "files (backend (fresh_CacheProg empty_disk)) (Disk_metadataPath disk0 (ActionID zero_put)) \<noteq> Some Dir"
    unfolding p by (simp_all add: fresh_CacheProg_def empty_disk_def)
  have a: "Abs (backend (fresh_CacheProg empty_disk)) ''/c/aa'' = Some ''/c/aa''"
    by (simp add: Abs_def Clean_def clean_element_def HasPrefix_def Let_def)
  note z = zero_length_put[where unmarshal=zero_unmarshal and req=zero_put and greq=zero_get
      and d=disk0 and cp="fresh_CacheProg empty_disk" and now=10 and now'=20,
      OF r u c d g, unfolded Let_def p a option.case]
  from z show ?thesis by simp
qed

section \<open>Every request read is answered once, on every schedule\<close>























section \<open>The function Run is one of the schedules\<close>

text \<open>
  The function \<^verbatim>\<open>Run\<close> of the first sections runs each goroutine to its end before the
  main goroutine goes on. What it returns is the end of a run of the step relation: the same
  error, input, output and \<^verbatim>\<open>CacheProg\<close>, the requests in the order they were read and
  the responses in the same order.
\<close>

lemma main_steps:
  fixes cp :: "'b CacheProg"
  shows "ReadRequest unmarshal r = (Inr req, r') \<Longrightarrow> Command req \<noteq> CmdClose \<Longrightarrow>
     step unmarshal time_json b
       \<lparr>inp = r, outp = w, prog = cp, goroutines = G, errChan = c, at = Reading, requests = reqs,
        responses = ans\<rparr>
       \<lparr>inp = r', outp = w, prog = cp, goroutines = add_mset (Spawned req) G, errChan = c,
        at = AfterSpawn, requests = reqs @ [req], responses = ans\<rparr>"
    and "ReadRequest unmarshal r = (Inr req, r') \<Longrightarrow> Command req = CmdClose \<Longrightarrow>
     step unmarshal time_json b
       \<lparr>inp = r, outp = w, prog = cp, goroutines = G, errChan = c, at = Reading, requests = reqs,
        responses = ans\<rparr>
       \<lparr>inp = r', outp = w, prog = cp, goroutines = G, errChan = c,
        at = Closing req, requests = reqs @ [req], responses = ans\<rparr>"
    and "ReadRequest unmarshal r = (Inl EOF, r') \<Longrightarrow>
     step unmarshal time_json b
       \<lparr>inp = r, outp = w, prog = cp, goroutines = G, errChan = c, at = Reading, requests = reqs,
        responses = ans\<rparr>
       \<lparr>inp = r', outp = w, prog = cp, goroutines = G, errChan = c,
        at = WaitAll, requests = reqs, responses = ans\<rparr>"
    and "ReadRequest unmarshal r = (Inl e, r') \<Longrightarrow> e \<noteq> EOF \<Longrightarrow>
     step unmarshal time_json b
       \<lparr>inp = r, outp = w, prog = cp, goroutines = G, errChan = c, at = Reading, requests = reqs,
        responses = ans\<rparr>
       \<lparr>inp = r', outp = w, prog = cp, goroutines = G, errChan = c,
        at = WaitThenFail (ReadFailed e), requests = reqs, responses = ans\<rparr>"
    and "step unmarshal time_json b
       \<lparr>inp = r, outp = w, prog = cp, goroutines = G, errChan = None, at = AfterSpawn,
        requests = reqs, responses = ans\<rparr>
       \<lparr>inp = r, outp = w, prog = cp, goroutines = G, errChan = None, at = Reading,
        requests = reqs, responses = ans\<rparr>"
    and "step unmarshal time_json b
       \<lparr>inp = r, outp = w, prog = cp, goroutines = G, errChan = Some se, at = AfterSpawn,
        requests = reqs, responses = ans\<rparr>
       \<lparr>inp = r, outp = w, prog = cp, goroutines = G, errChan = None,
        at = WaitThenFail SendResponseFailed, requests = reqs, responses = ans\<rparr>"
    and "step unmarshal time_json b
       \<lparr>inp = r, outp = w, prog = cp, goroutines = {#}, errChan = c, at = WaitAll,
        requests = reqs, responses = ans\<rparr>
       \<lparr>inp = r, outp = w, prog = cp, goroutines = {#}, errChan = c, at = Finished None,
        requests = reqs, responses = ans\<rparr>"
    and "step unmarshal time_json b
       \<lparr>inp = r, outp = w, prog = cp, goroutines = {#}, errChan = c, at = WaitThenFail re,
        requests = reqs, responses = ans\<rparr>
       \<lparr>inp = r, outp = w, prog = cp, goroutines = {#}, errChan = c, at = Finished (Some re),
        requests = reqs, responses = ans\<rparr>"
proof -
  let ?s = "\<lambda>G c p. \<lparr>inp = r, outp = w, prog = cp, goroutines = G, errChan = c, at = p,
        requests = reqs, responses = ans\<rparr>"
  show "ReadRequest unmarshal r = (Inr req, r') \<Longrightarrow> Command req \<noteq> CmdClose \<Longrightarrow>
     step unmarshal time_json b
       \<lparr>inp = r, outp = w, prog = cp, goroutines = G, errChan = c, at = Reading, requests = reqs,
        responses = ans\<rparr>
       \<lparr>inp = r', outp = w, prog = cp, goroutines = add_mset (Spawned req) G, errChan = c,
        at = AfterSpawn, requests = reqs @ [req], responses = ans\<rparr>"
    using step.read_request[of "?s G c Reading" unmarshal req r' time_json b] by simp
  show "ReadRequest unmarshal r = (Inr req, r') \<Longrightarrow> Command req = CmdClose \<Longrightarrow>
     step unmarshal time_json b
       \<lparr>inp = r, outp = w, prog = cp, goroutines = G, errChan = c, at = Reading, requests = reqs,
        responses = ans\<rparr>
       \<lparr>inp = r', outp = w, prog = cp, goroutines = G, errChan = c,
        at = Closing req, requests = reqs @ [req], responses = ans\<rparr>"
    using step.read_close[of "?s G c Reading" unmarshal req r' time_json b] by simp
  show "ReadRequest unmarshal r = (Inl EOF, r') \<Longrightarrow>
     step unmarshal time_json b
       \<lparr>inp = r, outp = w, prog = cp, goroutines = G, errChan = c, at = Reading, requests = reqs,
        responses = ans\<rparr>
       \<lparr>inp = r', outp = w, prog = cp, goroutines = G, errChan = c,
        at = WaitAll, requests = reqs, responses = ans\<rparr>"
    using step.read_eof[of "?s G c Reading" unmarshal r' time_json b] by simp
  show "ReadRequest unmarshal r = (Inl e, r') \<Longrightarrow> e \<noteq> EOF \<Longrightarrow>
     step unmarshal time_json b
       \<lparr>inp = r, outp = w, prog = cp, goroutines = G, errChan = c, at = Reading, requests = reqs,
        responses = ans\<rparr>
       \<lparr>inp = r', outp = w, prog = cp, goroutines = G, errChan = c,
        at = WaitThenFail (ReadFailed e), requests = reqs, responses = ans\<rparr>"
    using step.read_failed[of "?s G c Reading" unmarshal e r' time_json b] by simp
  show "step unmarshal time_json b
       \<lparr>inp = r, outp = w, prog = cp, goroutines = G, errChan = None, at = AfterSpawn,
        requests = reqs, responses = ans\<rparr>
       \<lparr>inp = r, outp = w, prog = cp, goroutines = G, errChan = None, at = Reading,
        requests = reqs, responses = ans\<rparr>"
    using step.no_error[of "?s G None AfterSpawn" unmarshal time_json b] by simp
  show "step unmarshal time_json b
       \<lparr>inp = r, outp = w, prog = cp, goroutines = G, errChan = Some se, at = AfterSpawn,
        requests = reqs, responses = ans\<rparr>
       \<lparr>inp = r, outp = w, prog = cp, goroutines = G, errChan = None,
        at = WaitThenFail SendResponseFailed, requests = reqs, responses = ans\<rparr>"
    using step.seen_error[of "?s G (Some se) AfterSpawn" se unmarshal time_json b] by simp
  show "step unmarshal time_json b
       \<lparr>inp = r, outp = w, prog = cp, goroutines = {#}, errChan = c, at = WaitAll,
        requests = reqs, responses = ans\<rparr>
       \<lparr>inp = r, outp = w, prog = cp, goroutines = {#}, errChan = c, at = Finished None,
        requests = reqs, responses = ans\<rparr>"
    using step.all_done[of "?s {#} c WaitAll" unmarshal time_json b] by simp
  show "step unmarshal time_json b
       \<lparr>inp = r, outp = w, prog = cp, goroutines = {#}, errChan = c, at = WaitThenFail re,
        requests = reqs, responses = ans\<rparr>
       \<lparr>inp = r, outp = w, prog = cp, goroutines = {#}, errChan = c, at = Finished (Some re),
        requests = reqs, responses = ans\<rparr>"
    using step.failed[of "?s {#} c (WaitThenFail re)" re unmarshal time_json b] by simp
qed

lemma goroutine_runs:
  fixes cp :: "'b CacheProg"
  assumes "HandleRequest b req cp = ((resp, err), req', cp')"
    and "SendResponse time_json (with_error resp err) w = (res, w')"
  shows "rtranclp (step unmarshal time_json b)
       \<lparr>inp = r, outp = w, prog = cp, goroutines = {#Spawned req#}, errChan = None, at = p,
        requests = reqs, responses = ans\<rparr>
       \<lparr>inp = r, outp = w', prog = cp', goroutines = {#}, errChan = res, at = p,
        requests = reqs,
        responses = ans @ [\<lparr>question = req, reply = with_error resp err, failure = res\<rparr>]\<rparr>"
proof -
  let ?s0 = "\<lparr>inp = r, outp = w, prog = cp, goroutines = {#Spawned req#}, errChan = None, at = p,
        requests = reqs, responses = ans\<rparr>"
  let ?s1 = "\<lparr>inp = r, outp = w, prog = cp', goroutines = {#Handled req (with_error resp err)#},
        errChan = None, at = p, requests = reqs, responses = ans\<rparr>"
  have 1: "step unmarshal time_json b ?s0 ?s1"
    using step.handle[of req ?s0 b resp err req' cp' unmarshal time_json] assms(1) by simp
  have 2: "step unmarshal time_json b ?s1
       \<lparr>inp = r, outp = w', prog = cp', goroutines = {#}, errChan = res, at = p,
        requests = reqs,
        responses = ans @ [\<lparr>question = req, reply = with_error resp err, failure = res\<rparr>]\<rparr>"
    using step.send[of req "with_error resp err" ?s1 time_json res w' unmarshal b] assms(2) by simp
  have "rtranclp (step unmarshal time_json b) ?s0 ?s0" by (rule rtranclp.rtrancl_refl)
  then have "rtranclp (step unmarshal time_json b) ?s0 ?s1"
    using 1 by (rule rtranclp.rtrancl_into_rtrancl)
  then show ?thesis
    using 2 by (rule rtranclp.rtrancl_into_rtrancl)
qed

lemma close_steps:
  fixes cp :: "'b CacheProg"
  assumes "HandleRequest b req cp = ((resp, err), req', cp')"
    and "SendResponse time_json (with_error resp err) w = (res, w')"
  shows "step unmarshal time_json b
       \<lparr>inp = r, outp = w, prog = cp, goroutines = {#}, errChan = c, at = Closing req,
        requests = reqs, responses = ans\<rparr>
       \<lparr>inp = r, outp = w', prog = cp', goroutines = {#}, errChan = c,
        at = (if res = None then WaitAll else Finished (Some SendCloseResponseFailed)),
        requests = reqs,
        responses = ans @ [\<lparr>question = req, reply = with_error resp err, failure = res\<rparr>]\<rparr>"
  using step.close_request[of "\<lparr>inp = r, outp = w, prog = cp, goroutines = {#}, errChan = c,
        at = Closing req, requests = reqs, responses = ans\<rparr>" req b resp err req' cp' time_json res w'
        unmarshal] assms
  by simp

lemma Run_loop_schedule:
  "Run_loop unmarshal time_json b r w cp = (e, xs, r', w', cp') \<Longrightarrow>
     \<exists>answers. map (\<lambda>a. (question a, reply a)) answers = xs \<and>
       rtranclp (step unmarshal time_json b)
         \<lparr>inp = r, outp = w, prog = cp, goroutines = {#}, errChan = None, at = Reading,
          requests = reqs, responses = ans\<rparr>
         \<lparr>inp = r', outp = w', prog = cp', goroutines = {#}, errChan = None, at = Finished e,
          requests = reqs @ map fst xs, responses = ans @ answers\<rparr>"
proof (induction unmarshal time_json b r w cp arbitrary: e xs r' w' cp' reqs ans rule: Run_loop.induct)
  case (1 unmarshal time_json b r w cp)
  let ?step = "step unmarshal time_json b"
  let ?s0 = "\<lparr>inp = r, outp = w, prog = cp, goroutines = {#}, errChan = None, at = Reading,
          requests = reqs, responses = ans\<rparr>"
  have s0: "rtranclp ?step ?s0 ?s0" by (rule rtranclp.rtrancl_refl)
  show ?case
  proof (cases "ReadRequest unmarshal r")
    case (Pair res r1)
    show ?thesis
    proof (cases res)
      case (Inl a)
      show ?thesis
      proof (cases "a = EOF")
        case True
        with Pair Inl 1(2) have eq: "e = None" "xs = []" "r' = r1" "w' = w" "cp' = cp"
          by (subst (asm) Run_loop.simps; simp)+
        from Pair Inl True have rr: "ReadRequest unmarshal r = (Inl EOF, r1)" by simp
        from s0 have "rtranclp ?step ?s0
            \<lparr>inp = r1, outp = w, prog = cp, goroutines = {#}, errChan = None, at = WaitAll,
             requests = reqs, responses = ans\<rparr>"
          using main_steps(3)[OF rr] by (rule rtranclp.rtrancl_into_rtrancl)
        then have "rtranclp ?step ?s0
            \<lparr>inp = r1, outp = w, prog = cp, goroutines = {#}, errChan = None, at = Finished None,
             requests = reqs, responses = ans\<rparr>"
          using main_steps(7) by (rule rtranclp.rtrancl_into_rtrancl)
        then show ?thesis by (intro exI[of _ "[]"]) (simp add: eq)
      next
        case False
        with Pair Inl 1(2) have eq: "e = Some (ReadFailed a)" "xs = []" "r' = r1" "w' = w" "cp' = cp"
          by (subst (asm) Run_loop.simps; simp)+
        from Pair Inl have rr: "ReadRequest unmarshal r = (Inl a, r1)" by simp
        from s0 have "rtranclp ?step ?s0
            \<lparr>inp = r1, outp = w, prog = cp, goroutines = {#}, errChan = None,
             at = WaitThenFail (ReadFailed a), requests = reqs, responses = ans\<rparr>"
          using main_steps(4)[OF rr False] by (rule rtranclp.rtrancl_into_rtrancl)
        then have "rtranclp ?step ?s0
            \<lparr>inp = r1, outp = w, prog = cp, goroutines = {#}, errChan = None,
             at = Finished (Some (ReadFailed a)), requests = reqs, responses = ans\<rparr>"
          using main_steps(8) by (rule rtranclp.rtrancl_into_rtrancl)
        then show ?thesis by (intro exI[of _ "[]"]) (simp add: eq)
      qed
    next
      case (Inr req)
      from Pair Inr have rr: "ReadRequest unmarshal r = (Inr req, r1)" by simp
      obtain resp err req1 cp1 where h: "HandleRequest b req cp = ((resp, err), req1, cp1)"
        by (cases "HandleRequest b req cp") auto
      define resp' where "resp' = (case err of Some e \<Rightarrow> resp\<lparr>Err := e\<rparr> | None \<Rightarrow> resp)"
      have we: "with_error resp err = resp'"
        by (simp add: resp'_def with_error_def split: option.splits)
      obtain se w1 where sr: "SendResponse time_json resp' w = (se, w1)"
        by (cases "SendResponse time_json resp' w")
      let ?a = "\<lparr>question = req, reply = resp', failure = se\<rparr>"
      show ?thesis
      proof (cases "Command req = CmdClose")
        case True
        from s0 have c1: "rtranclp ?step ?s0
            \<lparr>inp = r1, outp = w, prog = cp, goroutines = {#}, errChan = None, at = Closing req,
             requests = reqs @ [req], responses = ans\<rparr>"
          using main_steps(2)[OF rr True] by (rule rtranclp.rtrancl_into_rtrancl)
        note cs = close_steps[OF h sr[folded we], unfolded we]
        show ?thesis
        proof (cases se)
          case None
          with 1(2) Pair Inr h sr True
          have eq: "e = None" "xs = [(req, resp')]" "r' = r1" "w' = w1" "cp' = cp1"
            by (subst (asm) Run_loop.simps; simp add: resp'_def)+
          from c1 have "rtranclp ?step ?s0
              \<lparr>inp = r1, outp = w1, prog = cp1, goroutines = {#}, errChan = None, at = WaitAll,
               requests = reqs @ [req], responses = ans @ [?a]\<rparr>"
            using cs[where r=r1 and c=None and reqs="reqs @ [req]" and ans=ans, unfolded None]
            by (simp add: None rtranclp.rtrancl_into_rtrancl)
          then have "rtranclp ?step ?s0
              \<lparr>inp = r1, outp = w1, prog = cp1, goroutines = {#}, errChan = None, at = Finished None,
               requests = reqs @ [req], responses = ans @ [?a]\<rparr>"
            using main_steps(7) by (rule rtranclp.rtrancl_into_rtrancl)
          then show ?thesis by (intro exI[of _ "[?a]"]) (simp add: eq)
        next
          case (Some x)
          with 1(2) Pair Inr h sr True
          have eq: "e = Some SendCloseResponseFailed" "xs = [(req, resp')]" "r' = r1" "w' = w1" "cp' = cp1"
            by (subst (asm) Run_loop.simps; simp add: resp'_def)+
          from c1 have "rtranclp ?step ?s0
              \<lparr>inp = r1, outp = w1, prog = cp1, goroutines = {#}, errChan = None,
               at = Finished (Some SendCloseResponseFailed),
               requests = reqs @ [req], responses = ans @ [?a]\<rparr>"
            using cs[where r=r1 and c=None and reqs="reqs @ [req]" and ans=ans]
            by (simp add: Some rtranclp.rtrancl_into_rtrancl)
          then show ?thesis by (intro exI[of _ "[?a]"]) (simp add: eq)
        qed
      next
        case False
        from s0 have c1: "rtranclp ?step ?s0
            \<lparr>inp = r1, outp = w, prog = cp, goroutines = {#Spawned req#}, errChan = None,
             at = AfterSpawn, requests = reqs @ [req], responses = ans\<rparr>"
          using main_steps(1)[OF rr False] by (rule rtranclp.rtrancl_into_rtrancl)
        note gr = goroutine_runs[OF h sr[folded we], unfolded we,
            where r=r1 and p=AfterSpawn and reqs="reqs @ [req]" and ans=ans and unmarshal=unmarshal]
        from c1 gr have c2: "rtranclp ?step ?s0
            \<lparr>inp = r1, outp = w1, prog = cp1, goroutines = {#}, errChan = se, at = AfterSpawn,
             requests = reqs @ [req], responses = ans @ [?a]\<rparr>"
          by (rule rtranclp_trans)
        show ?thesis
        proof (cases se)
          case (Some x)
          with 1(2) Pair Inr h sr False
          have eq: "e = Some SendResponseFailed" "xs = [(req, resp')]" "r' = r1" "w' = w1" "cp' = cp1"
            by (subst (asm) Run_loop.simps; simp add: resp'_def)+
          from c2 have "rtranclp ?step ?s0
              \<lparr>inp = r1, outp = w1, prog = cp1, goroutines = {#}, errChan = None,
               at = WaitThenFail SendResponseFailed,
               requests = reqs @ [req], responses = ans @ [?a]\<rparr>"
            using main_steps(6)[where se=x] unfolding Some by (rule rtranclp.rtrancl_into_rtrancl)
          then have "rtranclp ?step ?s0
              \<lparr>inp = r1, outp = w1, prog = cp1, goroutines = {#}, errChan = None,
               at = Finished (Some SendResponseFailed),
               requests = reqs @ [req], responses = ans @ [?a]\<rparr>"
            using main_steps(8) by (rule rtranclp.rtrancl_into_rtrancl)
          then show ?thesis by (intro exI[of _ "[?a]"]) (simp add: eq)
        next
          case None
          obtain e2 xs2 r2 w2 cp2 where
            rl: "Run_loop unmarshal time_json b r1 w1 cp1 = (e2, xs2, r2, w2, cp2)"
            by (cases "Run_loop unmarshal time_json b r1 w1 cp1") auto
          from None sr have sr': "SendResponse time_json resp' w = (None, w1)" by simp
          from 1(2) Pair Inr h sr' rl False
          have eq: "e = e2" "xs = (req, resp') # xs2" "r' = r2" "w' = w2" "cp' = cp2"
            by (subst (asm) Run_loop.simps; simp add: resp'_def)+
          note ih = 1(1)[OF Pair[symmetric] Inr h[symmetric] refl refl resp'_def sr'[symmetric] refl False rl,
              of "reqs @ [req]" "ans @ [?a]"]
          then obtain answers where
            an: "map (\<lambda>a. (question a, reply a)) answers = xs2"
            and rn: "rtranclp ?step
              \<lparr>inp = r1, outp = w1, prog = cp1, goroutines = {#}, errChan = None, at = Reading,
               requests = reqs @ [req], responses = ans @ [?a]\<rparr>
              \<lparr>inp = r2, outp = w2, prog = cp2, goroutines = {#}, errChan = None, at = Finished e2,
               requests = (reqs @ [req]) @ map fst xs2, responses = (ans @ [?a]) @ answers\<rparr>"
            by blast
          from c2 have "rtranclp ?step ?s0
              \<lparr>inp = r1, outp = w1, prog = cp1, goroutines = {#}, errChan = None, at = Reading,
               requests = reqs @ [req], responses = ans @ [?a]\<rparr>"
            using main_steps(5) unfolding None by (rule rtranclp.rtrancl_into_rtrancl)
          from this rn have "rtranclp ?step ?s0
              \<lparr>inp = r2, outp = w2, prog = cp2, goroutines = {#}, errChan = None, at = Finished e2,
               requests = (reqs @ [req]) @ map fst xs2, responses = (ans @ [?a]) @ answers\<rparr>"
            by (rule rtranclp_trans)
          then show ?thesis using an by (intro exI[of _ "?a # answers"]) (simp add: eq)
        qed
      qed
    qed
  qed
qed

lemma Run_is_a_schedule:
  assumes "Run unmarshal time_json b r w cp = (e, xs, r', w', cp')"
  shows "\<exists>answers. map (\<lambda>a. (question a, reply a)) answers = xs \<and>
       Run_reaches unmarshal time_json b r w cp
         \<lparr>inp = r', outp = w', prog = cp', goroutines = {#}, errChan = None, at = Finished e,
          requests = map fst xs, responses = answers\<rparr>"
proof (cases "SendInitialResponse time_json w")
  case (Pair se w0)
  show ?thesis
  proof (cases se)
    case (Some x)
    with Pair assms show ?thesis
      by (intro exI[of _ "[]"]) (auto simp: Run_def Run_reaches_def Run_start_def)
  next
    case None
    with Pair assms have "Run_loop unmarshal time_json b r w0 cp = (e, xs, r', w', cp')"
      by (simp add: Run_def)
    from Run_loop_schedule[OF this, of "[]" "[]"] None Pair show ?thesis
      by (simp add: Run_reaches_def Run_start_def)
  qed
qed

end
